theory Spec2Isabelle
  imports Complex_Main
begin

section \<open>Python values and strings\<close>

text \<open>
  The programs are Python. A Python \<open>str\<close> is a sequence of code points; it is embedded
  as a \<open>string\<close> whose characters are the code points U+0000 .. U+00FF, and
  \<open>length\<close> is Python's \<open>len\<close>. The three character tables the programs use
  (\<open>str.isspace\<close>, \<open>str.isprintable\<close>, \<open>str.lower\<close>) are CPython's,
  written out on that range.

  A value of unknown type (a function argument, a parsed JSON document) is a \<open>pyval\<close>:
  \<open>None\<close>, a \<open>bool\<close>, an \<open>int\<close>, a \<open>float\<close>, a \<open>str\<close>, a \<open>list\<close> or a
  \<open>dict\<close> with string keys (in the order of its items, each key once). JSON \<open>null\<close>
  and a missing dictionary key read with \<open>dict.get\<close> are both Python's \<open>None\<close>.
\<close>

datatype pyval =
    PNone
  | PBool bool
  | PInt int
  | PFloat real
  | PStr string
  | PList "pyval list"
  | PDict "(string \<times> pyval) list"

text \<open>\<open>type(v).__name__\<close>\<close>

fun type_name :: "pyval \<Rightarrow> string" where
  "type_name PNone = ''NoneType''"
| "type_name (PBool b) = ''bool''"
| "type_name (PInt i) = ''int''"
| "type_name (PFloat r) = ''float''"
| "type_name (PStr s) = ''str''"
| "type_name (PList xs) = ''list''"
| "type_name (PDict kvs) = ''dict''"

text \<open>Python truthiness, as \<open>not v\<close> and \<open>if v\<close> use it.\<close>

fun truthy :: "pyval \<Rightarrow> bool" where
  "truthy PNone = False"
| "truthy (PBool b) = b"
| "truthy (PInt i) = (i \<noteq> 0)"
| "truthy (PFloat r) = (r \<noteq> 0)"
| "truthy (PStr s) = (s \<noteq> [])"
| "truthy (PList xs) = (xs \<noteq> [])"
| "truthy (PDict kvs) = (kvs \<noteq> [])"

text \<open>\<open>c.isspace()\<close>: TAB..CR, FS..US, SPACE, NEL (U+0085) and NBSP (U+00A0).\<close>

definition isspace :: "char \<Rightarrow> bool" where
  "isspace c =
     (let n = (of_char c :: nat)
      in (9 \<le> n \<and> n \<le> 13) \<or> (28 \<le> n \<and> n \<le> 32) \<or> n = 133 \<or> n = 160)"

text \<open>
  \<open>c.isprintable()\<close>: everything but the control characters (categories Cc and Cf:
  U+0000..U+001F, U+007F..U+009F, U+00AD) and the separators other than the ASCII space
  (U+00A0).
\<close>

definition isprintable :: "char \<Rightarrow> bool" where
  "isprintable c =
     (let n = (of_char c :: nat)
      in (32 \<le> n \<and> n \<le> 126) \<or> (161 \<le> n \<and> n \<le> 255 \<and> n \<noteq> 173))"

text \<open>\<open>c.lower()\<close>: A..Z and the Latin-1 capitals U+00C0..U+00DE (but U+00D7) move up by 32.\<close>

definition lower_char :: "char \<Rightarrow> char" where
  "lower_char c =
     (let n = (of_char c :: nat)
      in if (65 \<le> n \<and> n \<le> 90) \<or> (192 \<le> n \<and> n \<le> 222 \<and> n \<noteq> 215)
         then char_of (n + 32) else c)"

definition lower :: "string \<Rightarrow> string" where
  "lower s = map lower_char s"

text \<open>\<open>s.strip()\<close> removes leading and trailing whitespace.\<close>

definition strip :: "string \<Rightarrow> string" where
  "strip s = rev (dropWhile isspace (rev (dropWhile isspace s)))"

text \<open>\<open>s[:m]\<close> for an integer \<open>m\<close>: a negative bound counts from the end.\<close>

definition slice_to :: "string \<Rightarrow> int \<Rightarrow> string" where
  "slice_to s m = (if m < 0 then take (nat (int (length s) + m)) s else take (nat m) s)"

text \<open>
  \<open>s.rsplit(' ', 1)[0]\<close>: the part before the last U+0020 of \<open>s\<close>, and \<open>s\<close> itself
  when it has none.
\<close>

definition rsplit_head :: "string \<Rightarrow> string" where
  "rsplit_head s =
     (if CHR '' '' \<in> set s
      then rev (tl (dropWhile (\<lambda>c. c \<noteq> CHR '' '') (rev s)))
      else s)"

text \<open>\<open>needle in hay\<close> on strings.\<close>

fun starts_with :: "string \<Rightarrow> string \<Rightarrow> bool" where
  "starts_with [] hay = True"
| "starts_with (n # ns) [] = False"
| "starts_with (n # ns) (h # hs) = (n = h \<and> starts_with ns hs)"

fun contains :: "string \<Rightarrow> string \<Rightarrow> bool" where
  "contains needle [] = (needle = [])"
| "contains needle (h # hs) = (starts_with needle (h # hs) \<or> contains needle hs)"

text \<open>The decimal numeral of an integer, as an f-string prints it.\<close>

definition digit_char :: "nat \<Rightarrow> char" where
  "digit_char d = char_of (48 + d)"

fun digits_of :: "nat \<Rightarrow> string" where
  "digits_of n = (if n < 10 then [digit_char n] else digits_of (n div 10) @ [digit_char (n mod 10)])"

declare digits_of.simps [simp del]

definition str_of_int :: "int \<Rightarrow> string" where
  "str_of_int i = (if i < 0 then CHR ''-'' # digits_of (nat (- i)) else digits_of (nat i))"

section \<open>main.py: the text sanitizer\<close>

text \<open>
  \<^verbatim>\<open>
  def sanitize_text(text, max_length=500):
      if not text or not isinstance(text, str):
          return ""
      sanitized = "".join(c for c in text if c.isprintable() or c.isspace())
      sanitized = sanitized.strip()
      if len(sanitized) > max_length:
          sanitized = sanitized[:max_length].rsplit(' ', 1)[0] + "..."
      return sanitized
  \<close>
\<close>

fun sanitize_text :: "pyval \<Rightarrow> int \<Rightarrow> string" where
  "sanitize_text (PStr text) max_length =
     (if text = [] then []
      else
        let sanitized = filter (\<lambda>c. isprintable c \<or> isspace c) text;
            sanitized = strip sanitized
        in if int (length sanitized) > max_length
           then rsplit_head (slice_to sanitized max_length) @ ''...''
           else sanitized)"
| "sanitize_text other max_length = []"

text \<open>The default of the parameter \<open>max_length\<close>.\<close>

definition sanitize_max_length :: int where
  "sanitize_max_length = 500"

text \<open>Neither a leading nor a trailing whitespace character.\<close>

definition no_outer_space :: "string \<Rightarrow> bool" where
  "no_outer_space r = (r = [] \<or> (\<not> isspace (hd r) \<and> \<not> isspace (last r)))"

section \<open>main.py: the text generation adapter\<close>

text \<open>
  \<^verbatim>\<open>
  def validate_input(text, max_length=1000):
      if not text or not isinstance(text, str):
          return False, "I didn't catch that. Could you please repeat?"
      text = text.strip()
      if not text:
          return False, "I didn't catch that. Could you please repeat?"
      if len(text) > max_length:
          return False, f"Your message is too long. Please keep it under {max_length} characters."
      return True, text
  \<close>
\<close>

definition didnt_catch :: string where
  "didnt_catch = ''I didn't catch that. Could you please repeat?''"

definition too_long :: "int \<Rightarrow> string" where
  "too_long max_length =
     ''Your message is too long. Please keep it under '' @ str_of_int max_length @ '' characters.''"

fun validate_input :: "pyval \<Rightarrow> int \<Rightarrow> bool \<times> string" where
  "validate_input (PStr text) max_length =
     (if text = [] then (False, didnt_catch)
      else
        let text = strip text
        in if text = [] then (False, didnt_catch)
           else if int (length text) > max_length then (False, too_long max_length)
           else (True, text))"
| "validate_input other max_length = (False, didnt_catch)"

text \<open>
  An exception is a value: the disconnect signal of the WebSocket library, or any other
  exception; both carry the text that \<open>str(e)\<close> prints.
\<close>

datatype exn = WebSocketDisconnect string | Exception string

fun str_exn :: "exn \<Rightarrow> string" where
  "str_exn (WebSocketDisconnect m) = m"
| "str_exn (Exception m) = m"

text \<open>
  What one call of the chat-completion service does: it raises \<open>RateLimitError\<close>,
  \<open>APIError\<close> or another exception, or it returns a response whose \<open>choices\<close> hold
  these message contents.
\<close>

datatype response = RateLimitError | APIError | OtherError | Completion "string list"

text \<open>
  The world around \<open>process_text\<close>: the service's answer to the \<open>k\<close>-th call made with
  a text (\<open>k\<close> counts from 0), and the value of the global \<open>shutdown_flag\<close>, which a
  signal handler sets, at the moment the loop condition is evaluated after \<open>k\<close> calls.
\<close>

record cli_env =
  chat_completion :: "string \<Rightarrow> nat \<Rightarrow> response"
  shutdown_flag :: "nat \<Rightarrow> bool"

text \<open>
  What a call of \<open>process_text\<close> did: the string it returned (or the exception that
  left it), the number of calls it made to the service, and the delays it slept, in
  order.
\<close>

record run =
  returned :: "exn + string"
  n_calls :: nat
  delays :: "real list"

definition too_many_requests :: string where
  "too_many_requests = ''I'm getting too many requests. Please try again later.''"

definition trouble_connecting :: string where
  "trouble_connecting = ''I'm having trouble connecting to the service. Please try again later.''"

definition sorry_error :: string where
  "sorry_error =
     ''I'm sorry, I encountered an error processing your request. Please try again later.''"

definition trouble_processing :: string where
  "trouble_processing = ''I'm having trouble processing your request. Please try again later.''"

text \<open>
  \<^verbatim>\<open>
  def process_text(text, max_retries=3, initial_delay=1):
      is_valid, result = validate_input(text)
      if not is_valid:
          return result
      text = result
      retry_count = 0
      delay = initial_delay
      while retry_count < max_retries and not shutdown_flag:
          try:
              response = openai.ChatCompletion.create(...)
              if not response.choices:
                  raise ValueError("No response from the model")
              return response.choices[0].message['content'].strip()
          except openai.error.RateLimitError as e:
              retry_count += 1
              if retry_count >= max_retries:
                  return "I'm getting too many requests. Please try again later."
              time.sleep(delay)
              delay = min(delay * 2, 10)
          except openai.error.APIError as e:
              return "I'm having trouble connecting to the service. Please try again later."
          except Exception as e:
              retry_count += 1
              if retry_count >= max_retries:
                  return "I'm sorry, I encountered an error processing your request. ..."
      return "I'm having trouble processing your request. Please try again later."
  \<close>
  The loop is \<open>retry_loop\<close>, on the loop variables \<open>retry_count\<close> and \<open>delay\<close> and
  on the calls and sleeps made so far. \<open>time.sleep\<close> raises \<open>ValueError\<close> on a
  negative delay; raised inside an \<open>except\<close> block, it leaves the function. Delays are
  real numbers: the rounding of floats is not modelled.
\<close>

function retry_loop ::
  "cli_env \<Rightarrow> string \<Rightarrow> int \<Rightarrow> int \<Rightarrow> real \<Rightarrow> nat \<Rightarrow> real list \<Rightarrow> run" where
  "retry_loop E text max_retries retry_count delay k slept =
     (if retry_count < max_retries \<and> \<not> shutdown_flag E k then
        (case chat_completion E text k of
           Completion (c # cs) \<Rightarrow>
             \<lparr>returned = Inr (strip c), n_calls = Suc k, delays = slept\<rparr>
         | RateLimitError \<Rightarrow>
             if retry_count + 1 \<ge> max_retries
             then \<lparr>returned = Inr too_many_requests, n_calls = Suc k, delays = slept\<rparr>
             else if delay < 0
             then \<lparr>returned = Inl (Exception ''sleep length must be non-negative''),
                    n_calls = Suc k, delays = slept\<rparr>
             else retry_loop E text max_retries (retry_count + 1) (min (delay * 2) 10)
                    (Suc k) (slept @ [delay])
         | APIError \<Rightarrow>
             \<lparr>returned = Inr trouble_connecting, n_calls = Suc k, delays = slept\<rparr>
         | _ \<Rightarrow>
             if retry_count + 1 \<ge> max_retries
             then \<lparr>returned = Inr sorry_error, n_calls = Suc k, delays = slept\<rparr>
             else retry_loop E text max_retries (retry_count + 1) delay (Suc k) slept)
      else \<lparr>returned = Inr trouble_processing, n_calls = k, delays = slept\<rparr>)"
  by pat_completeness auto
termination
  by (relation "measure (\<lambda>(E, text, max_retries, retry_count, delay, k, slept).
        nat (max_retries - retry_count))") auto

declare retry_loop.simps [simp del]

definition process_text :: "cli_env \<Rightarrow> pyval \<Rightarrow> int \<Rightarrow> real \<Rightarrow> run" where
  "process_text E text max_retries initial_delay =
     (case validate_input text 1000 of
        (False, result) \<Rightarrow> \<lparr>returned = Inr result, n_calls = 0, delays = []\<rparr>
      | (True, result) \<Rightarrow> retry_loop E result max_retries 0 initial_delay 0 [])"

text \<open>
  The delays of \<open>n\<close> retries in a row that start with \<open>delay\<close>: each is slept, then
  doubled and capped, as the \<open>except RateLimitError\<close> block does.
\<close>

definition next_delay :: "real \<Rightarrow> real" where
  "next_delay delay = min (delay * 2) 10"

fun backoff :: "real \<Rightarrow> nat \<Rightarrow> real list" where
  "backoff delay 0 = []"
| "backoff delay (Suc n) = delay # backoff (next_delay delay) n"

section \<open>Temporary files\<close>

text \<open>
  The part of the file system the programs touch: the temporary files that exist, with
  their contents, and the supply of fresh temporary names. \<open>tempfile\<close> never hands out
  a name twice; names are numbered in the order they are handed out.
\<close>

record fsys =
  files :: "nat \<rightharpoonup> string"
  next_tmp :: nat

definition file_exists :: "fsys \<Rightarrow> nat \<Rightarrow> bool" where
  "file_exists fs path = (files fs path \<noteq> None)"

definition write_file :: "nat \<Rightarrow> string \<Rightarrow> fsys \<Rightarrow> fsys" where
  "write_file path content fs = fs\<lparr>files := (files fs)(path \<mapsto> content)\<rparr>"

definition unlink :: "nat \<Rightarrow> fsys \<Rightarrow> fsys" where
  "unlink path fs = fs\<lparr>files := (files fs)(path := None)\<rparr>"

section \<open>backend/app.py: the server\<close>

text \<open>
  The services and libraries the server calls, as functions of their arguments (and of
  the number of earlier calls where the answer can change from call to call):
  \<^item> \<open>gtts_save\<close>: \<open>gTTS(text=text, lang='en')\<close> followed by \<open>tts.save\<close>: the
    exception's text, or the audio bytes written;
  \<^item> \<open>b64encode\<close>: \<open>base64.b64encode\<close> on the audio bytes;
  \<^item> \<open>b64decode\<close>: \<open>base64.b64decode\<close> on the value of the \<open>audio\<close> field, whatever
    its type: the text of the exception it raises (\<open>binascii.Error\<close>, or \<open>TypeError\<close> on a
    value that is no string), or the bytes decoded;
  \<^item> \<open>atranscribe\<close>: \<open>openai.Audio.atranscribe\<close> and the read of
    \<open>transcript["text"]\<close>: the exception's text, or the transcript;
  \<^item> \<open>acreate\<close>: \<open>openai.ChatCompletion.acreate\<close> on a user text, at the \<open>k\<close>-th call;
  \<^item> \<open>send_raises\<close>: whether the \<open>k\<close>-th \<open>send_json\<close> raises, and what.
\<close>

record server_env =
  gtts_save :: "string \<Rightarrow> string + string"
  b64encode :: "string \<Rightarrow> string"
  b64decode :: "pyval \<Rightarrow> string + string"
  atranscribe :: "string \<Rightarrow> string + string"
  acreate :: "pyval \<Rightarrow> nat \<Rightarrow> response"
  send_raises :: "nat \<Rightarrow> exn option"

text \<open>
  The state of the server process: the manager's list of connections, the channels
  \<open>close()\<close> was called on, the messages delivered (with their channel), the counts of
  calls made to \<open>send_json\<close>, to the transcription service and to the chat service,
  and the temporary files.
\<close>

record server =
  active_connections :: "nat list"
  closed :: "nat list"
  sent :: "(nat \<times> pyval) list"
  send_attempts :: nat
  transcribe_calls :: nat
  chat_calls :: nat
  fs :: fsys

text \<open>
  \<^verbatim>\<open>
  class ConnectionManager:
      def __init__(self):
          self.active_connections = []
      async def connect(self, websocket):
          await websocket.accept()
          self.active_connections.append(websocket)
      def disconnect(self, websocket):
          self.active_connections.remove(websocket)
  \<close>
\<close>

definition connect :: "nat \<Rightarrow> server \<Rightarrow> server" where
  "connect ws st = st\<lparr>active_connections := active_connections st @ [ws]\<rparr>"

text \<open>
  \<open>list.remove\<close> takes out the first occurrence. (On a list without the element it
  raises \<open>ValueError\<close> and leaves the list as it is; the endpoint only removes a
  channel it has appended.)
\<close>

definition disconnect :: "nat \<Rightarrow> server \<Rightarrow> server" where
  "disconnect ws st = st\<lparr>active_connections := remove1 ws (active_connections st)\<rparr>"

text \<open>
  \<^verbatim>\<open>
  async def text_to_speech(text: str):
      try:
          with tempfile.NamedTemporaryFile(suffix=".mp3", delete=False) as fp:
              tts = gTTS(text=text, lang='en')
              tts.save(fp.name)
              with open(fp.name, 'rb') as audio_file:
                  audio_data = audio_file.read()
                  return base64.b64encode(audio_data).decode('utf-8')
      except Exception as e:
          return None
  \<close>
  \<open>NamedTemporaryFile\<close> creates the (empty) file under a fresh name; \<open>delete=False\<close>
  keeps it when the \<open>with\<close> block is left.
\<close>

definition text_to_speech :: "server_env \<Rightarrow> string \<Rightarrow> fsys \<Rightarrow> string option \<times> fsys" where
  "text_to_speech E text fs0 =
     (let name = next_tmp fs0;
          fs1 = write_file name [] (fs0\<lparr>next_tmp := Suc name\<rparr>)
      in case gtts_save E text of
           Inl e \<Rightarrow> (None, fs1)
         | Inr audio \<Rightarrow>
             (let fs2 = write_file name audio fs1
              in case files fs2 name of
                   None \<Rightarrow> (None, fs2)
                 | Some audio_data \<Rightarrow> (Some (b64encode E audio_data), fs2)))"

text \<open>
  \<^verbatim>\<open>
  async def process_text_with_openai(text: str):
      try:
          response = await openai.ChatCompletion.acreate(...)
          return response.choices[0].message['content']
      except Exception as e:
          return "Hmm, I'm having trouble thinking of a response right now. Could we try that again?"
  \<close>
\<close>

definition trouble_thinking :: string where
  "trouble_thinking =
     ''Hmm, I'm having trouble thinking of a response right now. Could we try that again?''"

definition process_text_with_openai :: "server_env \<Rightarrow> pyval \<Rightarrow> nat \<Rightarrow> string" where
  "process_text_with_openai E text k =
     (case acreate E text k of
        Completion (c # cs) \<Rightarrow> c
      | _ \<Rightarrow> trouble_thinking)"

text \<open>
  \<open>data.get(key, default)\<close>: only a dictionary has the method; on another value
  Python raises \<open>AttributeError\<close>, as \<open>'list' object has no attribute 'get'\<close>.
\<close>

definition no_attribute_get :: "pyval \<Rightarrow> string" where
  "no_attribute_get v =
     [CHR 0x27] @ type_name v @ [CHR 0x27] @ '' object has no attribute '' @
     [CHR 0x27] @ ''get'' @ [CHR 0x27]"

fun dict_get :: "pyval \<Rightarrow> string \<Rightarrow> pyval \<Rightarrow> exn + pyval" where
  "dict_get (PDict kvs) key dflt =
     Inr (case map_of kvs key of None \<Rightarrow> dflt | Some v \<Rightarrow> v)"
| "dict_get other key dflt = Inl (Exception (no_attribute_get other))"

text \<open>\<open>websocket.send_json(msg)\<close>: the message is delivered, or the call raises.\<close>

definition send_json :: "server_env \<Rightarrow> nat \<Rightarrow> pyval \<Rightarrow> server \<Rightarrow> exn option \<times> server" where
  "send_json E ws msg st =
     (case send_raises E (send_attempts st) of
        Some e \<Rightarrow> (Some e, st\<lparr>send_attempts := Suc (send_attempts st)\<rparr>)
      | None \<Rightarrow>
          (None, st\<lparr>send_attempts := Suc (send_attempts st), sent := sent st @ [(ws, msg)]\<rparr>))"

definition error_message :: "string \<Rightarrow> pyval" where
  "error_message t = PDict [(''type'', PStr ''error''), (''text'', PStr t)]"

definition reply_message :: "string \<Rightarrow> string \<Rightarrow> string option \<Rightarrow> pyval" where
  "reply_message kind response_text audio_data =
     PDict [(''type'', PStr kind), (''text'', PStr response_text),
            (''audio'', case audio_data of None \<Rightarrow> PNone | Some a \<Rightarrow> PStr a)]"

text \<open>
  The reply to one utterance, shared by the audio and the text branch:
  \<^verbatim>\<open>
  response_text = await process_text_with_openai(user_text)
  audio_data = await text_to_speech(response_text)
  await websocket.send_json({"type": kind, "text": response_text, "audio": audio_data})
  \<close>
\<close>

definition respond :: "server_env \<Rightarrow> nat \<Rightarrow> string \<Rightarrow> pyval \<Rightarrow> server \<Rightarrow> exn option \<times> server" where
  "respond E ws kind user_text st =
     (let response_text = process_text_with_openai E user_text (chat_calls st);
          st1 = st\<lparr>chat_calls := Suc (chat_calls st)\<rparr>;
          (audio_data, fs') = text_to_speech E response_text (fs st1);
          st2 = st1\<lparr>fs := fs'\<rparr>
      in send_json E ws (reply_message kind response_text audio_data) st2)"

text \<open>
  The body of the inner \<open>try\<close> of the audio branch:
  \<^verbatim>\<open>
  with tempfile.NamedTemporaryFile(suffix=".wav", delete=False) as audio_file:
      audio_file.write(base64.b64decode(audio_base64))
      audio_path = audio_file.name
  with open(audio_path, "rb") as audio_file:
      transcript = await openai.Audio.atranscribe("whisper-1", audio_file)
  user_text = transcript["text"]
  response_text = await process_text_with_openai(user_text)
  audio_data = await text_to_speech(response_text)
  await websocket.send_json({"type": "audio_response", ...})
  \<close>
  The file is created before the argument of \<open>write\<close> is evaluated.
\<close>

definition process_audio :: "server_env \<Rightarrow> nat \<Rightarrow> pyval \<Rightarrow> server \<Rightarrow> exn option \<times> server" where
  "process_audio E ws audio_base64 st =
     (let audio_path = next_tmp (fs st);
          st1 = st\<lparr>fs := write_file audio_path [] ((fs st)\<lparr>next_tmp := Suc audio_path\<rparr>)\<rparr>
      in case b64decode E audio_base64 of
           Inl m \<Rightarrow> (Some (Exception m), st1)
         | Inr wav \<Rightarrow>
             (let st2 = st1\<lparr>fs := write_file audio_path wav (fs st1)\<rparr>;
                  st3 = st2\<lparr>transcribe_calls := Suc (transcribe_calls st2)\<rparr>
              in case atranscribe E wav of
                   Inl m \<Rightarrow> (Some (Exception m), st3)
                 | Inr user_text \<Rightarrow> respond E ws ''audio_response'' (PStr user_text) st3))"

text \<open>
  The body of the \<open>while True\<close> loop, after \<open>data = json.loads(data)\<close>. The result
  is the exception that leaves the body, if one does.
  \<^verbatim>\<open>
  if data.get("type") == "audio":
      audio_base64 = data.get("audio")
      if not audio_base64:
          await websocket.send_json({"type": "error", "text": "No audio data received"})
          continue
      try:
          ...
      except Exception as e:
          await websocket.send_json({"type": "error",
                                     "text": f"Error processing audio: {str(e)}"})
  elif data.get("type") == "text":
      user_text = data.get("text", "")
      ...
  \<close>
\<close>

definition handle_message :: "server_env \<Rightarrow> nat \<Rightarrow> pyval \<Rightarrow> server \<Rightarrow> exn option \<times> server" where
  "handle_message E ws data st =
     (case dict_get data ''type'' PNone of
        Inl e \<Rightarrow> (Some e, st)
      | Inr ty \<Rightarrow>
          if ty = PStr ''audio'' then
            (case dict_get data ''audio'' PNone of
               Inl e \<Rightarrow> (Some e, st)
             | Inr audio_base64 \<Rightarrow>
                 if \<not> truthy audio_base64
                 then send_json E ws (error_message ''No audio data received'') st
                 else
                   (case process_audio E ws audio_base64 st of
                      (None, st') \<Rightarrow> (None, st')
                    | (Some e, st') \<Rightarrow>
                        send_json E ws
                          (error_message (''Error processing audio: '' @ str_exn e)) st'))
          else if ty = PStr ''text'' then
            (case dict_get data ''text'' (PStr []) of
               Inl e \<Rightarrow> (Some e, st)
             | Inr user_text \<Rightarrow> respond E ws ''text_response'' user_text st)
          else (None, st))"

text \<open>
  What \<open>await websocket.receive_text()\<close> and \<open>json.loads\<close> give for one step of the
  loop: the peer has disconnected (\<open>receive_text\<close> raises \<open>WebSocketDisconnect\<close>), the
  text received is no JSON document or no text frame (an exception with this text is
  raised), or the document parsed.
\<close>

datatype frame = Disconnected string | Malformed string | Parsed pyval

fun receive :: "frame \<Rightarrow> exn + pyval" where
  "receive (Disconnected m) = Inl (WebSocketDisconnect m)"
| "receive (Malformed m) = Inl (Exception m)"
| "receive (Parsed data) = Inr data"

text \<open>
  The two handlers around the loop:
  \<^verbatim>\<open>
  except WebSocketDisconnect:
      manager.disconnect(websocket)
  except Exception as e:
      print(f"WebSocket error: {str(e)}")
      await websocket.close()
  \<close>
\<close>

fun on_exception :: "nat \<Rightarrow> exn \<Rightarrow> server \<Rightarrow> server" where
  "on_exception ws (WebSocketDisconnect m) st = disconnect ws st"
| "on_exception ws (Exception m) st = st\<lparr>closed := closed st @ [ws]\<rparr>"

text \<open>
  The loop on the frames that arrive; with no frame left the task waits in
  \<open>receive_text\<close>. The flag tells whether the endpoint has returned.
\<close>

fun serve :: "server_env \<Rightarrow> nat \<Rightarrow> frame list \<Rightarrow> server \<Rightarrow> bool \<times> server" where
  "serve E ws [] st = (False, st)"
| "serve E ws (f # frames) st =
     (case receive f of
        Inl e \<Rightarrow> (True, on_exception ws e st)
      | Inr data \<Rightarrow>
          (case handle_message E ws data st of
             (Some e, st') \<Rightarrow> (True, on_exception ws e st')
           | (None, st') \<Rightarrow> serve E ws frames st'))"

definition websocket_endpoint :: "server_env \<Rightarrow> nat \<Rightarrow> frame list \<Rightarrow> server \<Rightarrow> bool \<times> server" where
  "websocket_endpoint E ws frames st = serve E ws frames (connect ws st)"

section \<open>main.py: speech output\<close>

text \<open>
  What \<open>gTTS(...)\<close> and \<open>tts.save(temp_file)\<close> do: they raise before the file is
  opened, they raise after it was opened (leaving these bytes), or they write the audio.
\<close>

datatype synthesis = NoFile | Partial string | Synthesized string

text \<open>
  The libraries and devices \<open>speak_text\<close> uses: the synthesis of a text, whether
  \<open>sf.read\<close> decodes the audio, whether \<open>sd.play\<close> and \<open>sd.wait\<close> play it, whether
  the platform's player (\<open>os.startfile\<close>, \<open>afplay\<close>, \<open>xdg-open\<close>) runs on the file,
  and whether \<open>os.unlink\<close> raises on it.
\<close>

record audio_env =
  tts_save :: "string \<Rightarrow> synthesis"
  sf_read :: "string \<Rightarrow> bool"
  sd_play :: "string \<Rightarrow> bool"
  system_player :: "nat \<Rightarrow> bool"
  unlink_raises :: "nat \<Rightarrow> bool"

text \<open>
  \<^verbatim>\<open>
  def speak_text(text, rate=1.0, volume=1.0):
      sanitized_text = sanitize_text(text)
      if not sanitized_text:
          return False
      ...
      temp_file = None
      success = False
      try:
          temp_file = tempfile.mktemp(suffix='.mp3')
          tts = gTTS(text=sanitized_text, lang='en', slow=False, lang_check=True)
          tts.save(temp_file)
          if not os.path.exists(temp_file) or os.path.getsize(temp_file) == 0:
              raise IOError("Failed to generate speech file")
          data, fs = sf.read(temp_file)
          ...
          try:
              sd.play(data, fs * rate)
              sd.wait()
              success = True
          except Exception as e:
              try:
                  ... os.startfile(temp_file) / subprocess.run([player, temp_file], check=True)
                  success = True
              except Exception as fallback_e:
                  print(...)
      except Exception as e:
          print(...)
      finally:
          if temp_file and os.path.exists(temp_file):
              try:
                  os.unlink(temp_file)
              except Exception as e:
                  print(...)
      return success
  \<close>
  \<open>tempfile.mktemp\<close> hands out a fresh name and creates no file. The parameters
  \<open>rate\<close> and \<open>volume\<close> scale the samples played and are left out.
\<close>

definition speak_text :: "audio_env \<Rightarrow> pyval \<Rightarrow> fsys \<Rightarrow> bool \<times> fsys" where
  "speak_text E text fs0 =
     (let sanitized_text = sanitize_text text sanitize_max_length
      in if sanitized_text = [] then (False, fs0)
         else
           let temp_file = next_tmp fs0;
               fs1 = fs0\<lparr>next_tmp := Suc temp_file\<rparr>;
               (success, fs2) =
                 (case tts_save E sanitized_text of
                    NoFile \<Rightarrow> (False, fs1)
                  | Partial b \<Rightarrow> (False, write_file temp_file b fs1)
                  | Synthesized b \<Rightarrow>
                      let fs2 = write_file temp_file b fs1
                      in if \<not> file_exists fs2 temp_file \<or> length b = 0 then (False, fs2)
                         else if \<not> sf_read E b then (False, fs2)
                         else if sd_play E b then (True, fs2)
                         else if system_player E temp_file then (True, fs2)
                         else (False, fs2))
           in if file_exists fs2 temp_file
              then (if unlink_raises E temp_file then (success, fs2)
                    else (success, unlink temp_file fs2))
              else (success, fs2))"

section \<open>main.py: the conversation loop\<close>

text \<open>
  What the world does during one iteration of the loop of \<open>main\<close>: the value of
  \<open>shutdown_flag\<close> when the loop condition is evaluated, an exception raised while
  listening (if any), the result of \<open>listen_to_speech()\<close>, the flag read after
  listening, the result of \<open>process_text(user_input)\<close>, and the flag read after it.
\<close>

datatype raised = NoException | KeyboardInterrupt | OtherException

record turn =
  flag_top :: bool
  raises :: raised
  heard :: "string option"
  flag_heard :: bool
  reply :: string
  flag_replied :: bool

text \<open>What the loop does, in order: the calls of \<open>listen_to_speech\<close>,
  \<open>process_text\<close>, \<open>speak_text\<close> and \<open>time.sleep\<close>.\<close>

datatype action = Listen | Process string | Speak string | Sleep

definition exit_words :: "string list" where
  "exit_words = [''exit'', ''quit'', ''bye'', ''goodbye'']"

text \<open>\<open>any(exit_word in user_input.lower() for exit_word in [...])\<close>\<close>

definition exit_requested :: "string \<Rightarrow> bool" where
  "exit_requested user_input = list_ex (\<lambda>exit_word. contains exit_word (lower user_input)) exit_words"

definition farewell :: string where
  "farewell = ''Goodbye! Have a great day!''"

definition no_response :: string where
  "no_response = ''I'm sorry, I couldn't generate a response. Please try again.''"

definition trouble_understanding :: string where
  "trouble_understanding =
     ''I'm having trouble understanding you. Please check your microphone and try again.''"

definition error_again :: string where
  "error_again = ''I encountered an error. Let's try that again.''"

definition too_many_issues :: string where
  "too_many_issues = ''I'm having too many issues. Please restart me.''"

definition MAX_CONSECUTIVE_ERRORS :: nat where
  "MAX_CONSECUTIVE_ERRORS = 3"

text \<open>The actions of this iteration, followed by the rest of the loop.\<close>

fun and_then :: "action list \<Rightarrow> action list \<times> bool \<Rightarrow> action list \<times> bool" where
  "and_then acts (rest, finished) = (acts @ rest, finished)"

text \<open>
  \<^verbatim>\<open>
  while conversation_active and not shutdown_flag:
      try:
          user_input = listen_to_speech()
          if shutdown_flag:
              break
          if user_input and any(exit_word in user_input.lower()
                                for exit_word in ["exit", "quit", "bye", "goodbye"]):
              speak_text("Goodbye! Have a great day!")
              conversation_active = False
              break
          if user_input:
              response = process_text(user_input)
              if shutdown_flag:
                  break
              if response:
                  speak_text(response)
              else:
                  speak_text("I'm sorry, I couldn't generate a response. Please try again.")
              consecutive_errors = 0
          else:
              speak_text("I didn't catch that. Could you please repeat?")
              consecutive_errors += 1
              if consecutive_errors >= MAX_CONSECUTIVE_ERRORS:
                  speak_text("I'm having trouble understanding you. ...")
                  consecutive_errors = 0
      except KeyboardInterrupt:
          speak_text("Goodbye!")
          conversation_active = False
          break
      except Exception as e:
          speak_text("I encountered an error. Let's try that again.")
          consecutive_errors += 1
          if consecutive_errors > MAX_CONSECUTIVE_ERRORS * 2:
              speak_text("I'm having too many issues. Please restart me.")
              conversation_active = False
              break
          time.sleep(1)
          continue
  \<close>
  The loop runs on the iterations the world provides; the result is what it did and
  whether it has ended (with no iteration left it is still listening).
\<close>

fun main_loop :: "turn list \<Rightarrow> nat \<Rightarrow> action list \<times> bool" where
  "main_loop [] consecutive_errors = ([], False)"
| "main_loop (t # ts) consecutive_errors =
     (if flag_top t then ([], True)
      else
        (case raises t of
           KeyboardInterrupt \<Rightarrow> ([Listen, Speak ''Goodbye!''], True)
         | OtherException \<Rightarrow>
             if consecutive_errors + 1 > MAX_CONSECUTIVE_ERRORS * 2
             then ([Listen, Speak error_again, Speak too_many_issues], True)
             else and_then [Listen, Speak error_again, Sleep]
                    (main_loop ts (consecutive_errors + 1))
         | NoException \<Rightarrow>
             if flag_heard t then ([Listen], True)
             else
               (case heard t of
                  Some user_input \<Rightarrow>
                    if user_input \<noteq> [] \<and> exit_requested user_input
                    then ([Listen, Speak farewell], True)
                    else if user_input \<noteq> [] then
                      (if flag_replied t then ([Listen, Process user_input], True)
                       else and_then
                              [Listen, Process user_input,
                               Speak (if reply t \<noteq> [] then reply t else no_response)]
                              (main_loop ts 0))
                    else
                      (if consecutive_errors + 1 \<ge> MAX_CONSECUTIVE_ERRORS
                       then and_then [Listen, Speak didnt_catch, Speak trouble_understanding]
                              (main_loop ts 0)
                       else and_then [Listen, Speak didnt_catch]
                              (main_loop ts (consecutive_errors + 1)))
                | None \<Rightarrow>
                    (if consecutive_errors + 1 \<ge> MAX_CONSECUTIVE_ERRORS
                     then and_then [Listen, Speak didnt_catch, Speak trouble_understanding]
                            (main_loop ts 0)
                     else and_then [Listen, Speak didnt_catch]
                            (main_loop ts (consecutive_errors + 1))))))"

section \<open>Example worlds\<close>

text \<open>
  Concrete worlds for the examples below. In \<open>example_env\<close> synthesis and the chat
  service answer, the audio sent by the client cannot be decoded, and every send goes
  through; \<open>broken_pipe_env\<close> differs in that every \<open>send_json\<close> raises. The server
  starts with no connection and no temporary file.
\<close>

definition example_env :: server_env where
  "example_env =
     \<lparr>gtts_save = \<lambda>t. Inr ''mp3 bytes'',
      b64encode = \<lambda>b. ''bXAzIGJ5dGVz'',
      b64decode = \<lambda>v. Inl ''Incorrect padding'',
      atranscribe = \<lambda>b. Inr ''hi'',
      acreate = \<lambda>t k. Completion [''Hello!''],
      send_raises = \<lambda>k. None\<rparr>"

definition broken_pipe_env :: server_env where
  "broken_pipe_env = example_env\<lparr>send_raises := \<lambda>k. Some (Exception ''broken pipe'')\<rparr>"

definition no_files :: fsys where
  "no_files = \<lparr>files = Map.empty, next_tmp = 0\<rparr>"

definition fresh_server :: server where
  "fresh_server =
     \<lparr>active_connections = [], closed = [], sent = [], send_attempts = 0,
      transcribe_calls = 0, chat_calls = 0, fs = no_files\<rparr>"

section \<open>Properties of the text sanitizer\<close>

subsection \<open>Stripping, slicing and splitting\<close>

lemma strip_no_outer_space: "no_outer_space (strip s)"
proof (cases "strip s = []")
  case True
  then show ?thesis by (simp add: no_outer_space_def)
next
  case False
  let ?a = "dropWhile isspace s"
  let ?b = "dropWhile isspace (rev ?a)"
  have b: "?b \<noteq> []" using False by (simp add: strip_def)
  then have nb: "\<not> isspace (hd ?b)" by (rule hd_dropWhile)
  have a: "?a \<noteq> []" using b by (metis dropWhile.simps(1) rev.simps(1))
  then have na: "\<not> isspace (hd ?a)" by (rule hd_dropWhile)
  have "rev ?a = takeWhile isspace (rev ?a) @ ?b" by simp
  then have "rev (rev ?a) = rev (takeWhile isspace (rev ?a) @ ?b)" by (rule arg_cong)
  then have split: "?a = rev ?b @ rev (takeWhile isspace (rev ?a))"
    by (simp only: rev_rev_ident rev_append)
  have "hd (rev ?b @ rev (takeWhile isspace (rev ?a))) = hd (rev ?b)" using b by simp
  with split have h: "hd (rev ?b) = hd ?a" by simp
  have l: "last (rev ?b) = hd ?b" using b by (simp add: last_rev)
  show ?thesis using h l na nb by (simp add: no_outer_space_def strip_def)
qed

lemma strip_fix: "no_outer_space s \<Longrightarrow> strip s = s"
proof (cases "s = []")
  case True
  then show ?thesis by (simp add: strip_def)
next
  case False
  assume "no_outer_space s"
  with False have h: "\<not> isspace (hd s)" and l: "\<not> isspace (last s)"
    by (simp_all add: no_outer_space_def)
  have 1: "dropWhile isspace s = s" using h by (simp add: dropWhile_eq_self_iff)
  have "hd (rev s) = last s" using False by (simp add: hd_rev)
  then have 2: "dropWhile isspace (rev s) = rev s" using l by (simp add: dropWhile_eq_self_iff)
  show ?thesis by (simp add: strip_def 1 2)
qed

lemma set_strip: "set (strip s) \<subseteq> set s"
proof -
  have "set (strip s) = set (dropWhile isspace (rev (dropWhile isspace s)))" by (simp add: strip_def)
  also have "\<dots> \<subseteq> set (rev (dropWhile isspace s))" by (auto dest: set_dropWhileD)
  also have "\<dots> \<subseteq> set s" by (auto dest: set_dropWhileD)
  finally show ?thesis .
qed

lemma set_slice_to: "set (slice_to s m) \<subseteq> set s"
  by (auto simp: slice_to_def dest: in_set_takeD)

lemma rsplit_head_prefix: "\<exists>t. s = rsplit_head s @ t"
proof (cases "CHR '' '' \<in> set s")
  case False
  then show ?thesis by (simp add: rsplit_head_def)
next
  case True
  let ?P = "\<lambda>c. c \<noteq> CHR '' ''"
  let ?d = "dropWhile ?P (rev s)"
  have "rev s = takeWhile ?P (rev s) @ ?d" by simp
  moreover have "?d \<noteq> []" using True by (simp add: dropWhile_eq_Nil_conv)
  then have "?d = hd ?d # tl ?d" by simp
  ultimately have "rev s = takeWhile ?P (rev s) @ hd ?d # tl ?d" by simp
  then have "rev (rev s) = rev (takeWhile ?P (rev s) @ hd ?d # tl ?d)" by (rule arg_cong)
  then have "s = rev (tl ?d) @ (hd ?d # rev (takeWhile ?P (rev s)))" by simp
  then show ?thesis using True unfolding rsplit_head_def by (simp only: if_True) blast
qed

lemma hd_slice_to: "slice_to s m \<noteq> [] \<Longrightarrow> hd (slice_to s m) = hd s"
  by (auto simp: slice_to_def split: if_splits)

lemma slice_to_prefix: "\<exists>t. s = slice_to s m @ t"
  by (metis append_take_drop_id slice_to_def)

lemma set_rsplit_head: "set (rsplit_head s) \<subseteq> set s"
proof -
  obtain t where "s = rsplit_head s @ t" using rsplit_head_prefix by blast
  then have "set s = set (rsplit_head s) \<union> set t" by (metis set_append)
  then show ?thesis by blast
qed

lemma hd_rsplit_head: "rsplit_head s \<noteq> [] \<Longrightarrow> hd (rsplit_head s) = hd s"
proof -
  assume ne: "rsplit_head s \<noteq> []"
  obtain t where "s = rsplit_head s @ t" using rsplit_head_prefix by blast
  then have "hd s = hd (rsplit_head s @ t)" by simp
  then show ?thesis using ne by simp
qed

lemma isprintable_dot: "isprintable CHR ''.''" and isspace_dot: "\<not> isspace CHR ''.''"
  by (simp_all add: isprintable_def isspace_def)

lemma sanitize_text_cases:
  obtains (empty) "sanitize_text v m = []"
  | (kept) s where "v = PStr s"
      and "sanitize_text v m = strip (filter (\<lambda>c. isprintable c \<or> isspace c) s)"
  | (cut) s where "v = PStr s"
      and "sanitize_text v m =
            rsplit_head (slice_to (strip (filter (\<lambda>c. isprintable c \<or> isspace c) s)) m) @ ''...''"
proof (cases v)
  case (PStr s)
  show ?thesis
  proof (cases "s = []")
    case True
    with PStr have "sanitize_text v m = []" by simp
    then show ?thesis by (rule empty)
  next
    case False
    show ?thesis
    proof (cases "m < int (length (strip (filter (\<lambda>c. isprintable c \<or> isspace c) s)))")
      case True
      with False PStr show ?thesis by (intro cut [of s]) (simp_all add: Let_def)
    next
      case no: False
      with False PStr show ?thesis by (intro kept [of s]) (simp_all add: Let_def)
    qed
  qed
qed (simp_all add: empty)

lemma sanitize_chars: "c \<in> set (sanitize_text v m) \<Longrightarrow> isprintable c \<or> isspace c"
proof (cases rule: sanitize_text_cases [of v m])
  case empty
  assume "c \<in> set (sanitize_text v m)"
  with empty show ?thesis by simp
next
  case (kept s)
  assume "c \<in> set (sanitize_text v m)"
  with kept(2) have "c \<in> set (strip (filter (\<lambda>c. isprintable c \<or> isspace c) s))" by simp
  with set_strip have "c \<in> set (filter (\<lambda>c. isprintable c \<or> isspace c) s)" by blast
  then show ?thesis by simp
next
  case (cut s)
  let ?st = "strip (filter (\<lambda>c. isprintable c \<or> isspace c) s)"
  assume "c \<in> set (sanitize_text v m)"
  with cut(2) have "c \<in> set (rsplit_head (slice_to ?st m)) \<or> c \<in> set ''...''"
    by (simp only: set_append Un_iff)
  then show ?thesis
  proof
    assume "c \<in> set (rsplit_head (slice_to ?st m))"
    with set_rsplit_head have "c \<in> set (slice_to ?st m)" by blast
    with set_slice_to have "c \<in> set ?st" by blast
    with set_strip have "c \<in> set (filter (\<lambda>c. isprintable c \<or> isspace c) s)" by blast
    then show ?thesis by simp
  next
    assume "c \<in> set ''...''"
    then have "c = CHR ''.''" by simp
    then show ?thesis by (simp add: isprintable_dot)
  qed
qed

lemma sanitize_no_outer_space: "no_outer_space (sanitize_text v m)"
proof (cases rule: sanitize_text_cases [of v m])
  case empty
  then show ?thesis by (simp add: no_outer_space_def)
next
  case (kept s)
  then show ?thesis by (simp only: strip_no_outer_space)
next
  case (cut s)
  let ?st = "strip (filter (\<lambda>c. isprintable c \<or> isspace c) s)"
  let ?h = "rsplit_head (slice_to ?st m)"
  have hd: "\<not> isspace (hd (?h @ ''...''))"
  proof (cases "?h = []")
    case True
    then show ?thesis by (simp add: isspace_dot)
  next
    case False
    then have 1: "hd ?h = hd (slice_to ?st m)" by (rule hd_rsplit_head)
    have s: "slice_to ?st m \<noteq> []"
    proof
      assume "slice_to ?st m = []"
      then have "?h = []" by (simp add: rsplit_head_def)
      with False show False by simp
    qed
    then have 2: "hd (slice_to ?st m) = hd ?st" by (rule hd_slice_to)
    have "?st \<noteq> []"
    proof
      assume "?st = []"
      then have "slice_to ?st m = []" by (simp add: slice_to_def)
      with s show False by simp
    qed
    with strip_no_outer_space [of "filter (\<lambda>c. isprintable c \<or> isspace c) s"]
    have "\<not> isspace (hd ?st)" by (simp add: no_outer_space_def)
    with 1 2 False show ?thesis by simp
  qed
  have "last (?h @ ''...'') = CHR ''.''" by simp
  with hd have "no_outer_space (?h @ ''...'')" by (simp add: no_outer_space_def isspace_dot)
  with cut(2) show ?thesis by simp
qed

lemma sanitize_clean:
  assumes "\<forall>c\<in>set s. isprintable c \<or> isspace c" and "no_outer_space s"
  shows "sanitize_text (PStr s) m =
     (if s \<noteq> [] \<and> int (length s) > m then rsplit_head (slice_to s m) @ ''...'' else s)"
proof -
  have "filter (\<lambda>c. isprintable c \<or> isspace c) s = s" using assms(1) by simp
  moreover have "strip s = s" using assms(2) by (rule strip_fix)
  ultimately show ?thesis by (simp add: Let_def)
qed

lemma rsplit_head_space:
  assumes "CHR '' '' \<notin> set t"
  shows "rsplit_head (s @ CHR '' '' # t) = s"
proof -
  let ?P = "\<lambda>c. c \<noteq> CHR '' ''"
  have "dropWhile ?P (rev t @ CHR '' '' # rev s) = dropWhile ?P (CHR '' '' # rev s)"
    by (rule dropWhile_append2) (use assms in auto)
  then show ?thesis by (simp add: rsplit_head_def)
qed

lemma rsplit_head_none: "CHR '' '' \<notin> set s \<Longrightarrow> rsplit_head s = s"
  by (simp add: rsplit_head_def)

lemma sanitize_text_cut_once:
  "sanitize_text (PStr (replicate 498 CHR ''a'' @ '' bbbbbbbbbb'')) 500 = replicate 498 CHR ''a'' @ ''...''"
proof -
  let ?s = "replicate 498 CHR ''a'' @ '' bbbbbbbbbb''"
  have a: "\<forall>c\<in>set ?s. isprintable c \<or> isspace c"
    by (auto simp: isprintable_def isspace_def)
  have b: "no_outer_space ?s"
    by (simp add: no_outer_space_def isspace_def hd_append)
  have "slice_to ?s 500 = replicate 498 CHR ''a'' @ '' b''" by (simp add: slice_to_def)
  moreover have "rsplit_head (replicate 498 CHR ''a'' @ '' b'') = replicate 498 CHR ''a''"
    using rsplit_head_space [of "''b''" "replicate 498 CHR ''a''"] by simp
  ultimately show ?thesis using sanitize_clean [OF a b, of 500] by simp
qed

lemma sanitize_text_cut_twice:
  "sanitize_text (PStr (replicate 498 CHR ''a'' @ ''...'')) 500 = replicate 498 CHR ''a'' @ ''.....''"
proof -
  let ?s = "replicate 498 CHR ''a'' @ ''...''"
  have a: "\<forall>c\<in>set ?s. isprintable c \<or> isspace c"
    by (auto simp: isprintable_def isspace_def)
  have b: "no_outer_space ?s"
    by (simp add: no_outer_space_def isspace_def hd_append)
  have "slice_to ?s 500 = replicate 498 CHR ''a'' @ ''..''" by (simp add: slice_to_def)
  moreover have "rsplit_head (replicate 498 CHR ''a'' @ ''..'') = replicate 498 CHR ''a'' @ ''..''"
    by (rule rsplit_head_none) auto
  ultimately show ?thesis using sanitize_clean [OF a b, of 500] by simp
qed

lemma sanitize_text_cut_short:
  "sanitize_text (PStr (replicate 495 CHR ''a'' @ '' bbbbbbbbbb'')) 500 = replicate 495 CHR ''a'' @ ''...''"
proof -
  let ?s = "replicate 495 CHR ''a'' @ '' bbbbbbbbbb''"
  have a: "\<forall>c\<in>set ?s. isprintable c \<or> isspace c"
    by (auto simp: isprintable_def isspace_def)
  have b: "no_outer_space ?s"
    by (simp add: no_outer_space_def isspace_def hd_append)
  have "slice_to ?s 500 = replicate 495 CHR ''a'' @ '' bbbb''" by (simp add: slice_to_def)
  moreover have "rsplit_head (replicate 495 CHR ''a'' @ '' bbbb'') = replicate 495 CHR ''a''"
    using rsplit_head_space [of "''bbbb''" "replicate 495 CHR ''a''"] by simp
  ultimately show ?thesis using sanitize_clean [OF a b, of 500] by simp
qed

lemma sanitize_text_hello:
  "sanitize_text (PStr '' hello world  '') 500 = ''hello world''"
  "sanitize_text (PStr ''hello world'') 3 = ''hel...''"
  "sanitize_text (PStr ''hello world'') 8 = ''hello...''"
  "sanitize_text (PStr ''hello world'') 7 = ''hello...''"
  by (simp_all add: isprintable_def isspace_def strip_def slice_to_def rsplit_head_def)

subsection \<open>The second pass\<close>

lemma rsplit_head_shape:
  "rsplit_head x = x \<or> (\<exists>rest. x = rsplit_head x @ CHR '' '' # rest)"
proof (cases "CHR '' '' \<in> set x")
  case False
  then show ?thesis by (simp add: rsplit_head_def)
next
  case True
  let ?P = "\<lambda>c. c \<noteq> CHR '' ''"
  let ?d = "dropWhile ?P (rev x)"
  have ne: "?d \<noteq> []" using True by (simp add: dropWhile_eq_Nil_conv)
  then have "\<not> ?P (hd ?d)" by (rule hd_dropWhile)
  then have hd: "hd ?d = CHR '' ''" by simp
  have "rev x = takeWhile ?P (rev x) @ ?d" by simp
  moreover have "?d = hd ?d # tl ?d" using ne by simp
  ultimately have "rev x = takeWhile ?P (rev x) @ CHR '' '' # tl ?d" using hd by simp
  then have "rev (rev x) = rev (takeWhile ?P (rev x) @ CHR '' '' # tl ?d)" by (rule arg_cong)
  then have "x = rev (tl ?d) @ CHR '' '' # rev (takeWhile ?P (rev x))" by simp
  moreover have "rsplit_head x = rev (tl ?d)" using True by (simp add: rsplit_head_def)
  ultimately have "x = rsplit_head x @ CHR '' '' # rev (takeWhile ?P (rev x))" by simp
  then show ?thesis by blast
qed

lemma length_rsplit_head: "length (rsplit_head x) \<le> length x"
proof -
  obtain t where "x = rsplit_head x @ t" using rsplit_head_prefix by blast
  then have "length x = length (rsplit_head x) + length t" by (metis length_append)
  then show ?thesis by simp
qed

lemma rsplit_head_full: "length (rsplit_head x) = length x \<Longrightarrow> rsplit_head x = x"
proof -
  assume len: "length (rsplit_head x) = length x"
  from rsplit_head_shape [of x] show ?thesis
  proof
    assume "\<exists>rest. x = rsplit_head x @ CHR '' '' # rest"
    then obtain rest where "x = rsplit_head x @ CHR '' '' # rest" by blast
    then have "length x = length (rsplit_head x @ CHR '' '' # rest)" by simp
    with len show ?thesis by simp
  qed
qed

lemma rsplit_head_dots:
  assumes "d = ''.'' \<or> d = ''..''"
  shows "rsplit_head (h @ d) \<noteq> h"
proof
  assume eq: "rsplit_head (h @ d) = h"
  from rsplit_head_shape [of "h @ d"] show False
  proof
    assume "rsplit_head (h @ d) = h @ d"
    with eq assms show False by auto
  next
    assume "\<exists>rest. h @ d = rsplit_head (h @ d) @ CHR '' '' # rest"
    then obtain rest where "h @ d = h @ CHR '' '' # rest" using eq by auto
    then have "d = CHR '' '' # rest" by simp
    with assms show False by auto
  qed
qed

lemma sanitize_text_long:
  assumes "0 \<le> m" and "m < int (length (sanitize_text v m))"
  obtains s where "v = PStr s"
    and "m < int (length (strip (filter (\<lambda>c. isprintable c \<or> isspace c) s)))"
    and "sanitize_text v m =
         rsplit_head (take (nat m) (strip (filter (\<lambda>c. isprintable c \<or> isspace c) s))) @ ''...''"
proof (cases v)
  case (PStr s)
  let ?st = "strip (filter (\<lambda>c. isprintable c \<or> isspace c) s)"
  have ne: "s \<noteq> []"
  proof
    assume "s = []"
    with PStr have "sanitize_text v m = []" by simp
    with assms show False by simp
  qed
  have long: "m < int (length ?st)"
  proof (rule ccontr)
    assume "\<not> m < int (length ?st)"
    with ne PStr have "sanitize_text v m = ?st" by (simp add: Let_def)
    with assms(2) \<open>\<not> m < int (length ?st)\<close> show False by simp
  qed
  with ne PStr assms(1) have "sanitize_text v m = rsplit_head (take (nat m) ?st) @ ''...''"
    by (simp add: Let_def slice_to_def)
  with PStr long show ?thesis by (rule that)
qed (use assms in simp_all)

lemma sanitize_text_twice:
  "sanitize_text (PStr (sanitize_text v m)) m =
     (if sanitize_text v m \<noteq> [] \<and> m < int (length (sanitize_text v m))
      then rsplit_head (slice_to (sanitize_text v m) m) @ ''...''
      else sanitize_text v m)"
proof -
  have a: "\<forall>c\<in>set (sanitize_text v m). isprintable c \<or> isspace c"
    using sanitize_chars by blast
  have b: "no_outer_space (sanitize_text v m)" by (rule sanitize_no_outer_space)
  show ?thesis by (rule sanitize_clean [OF a b])
qed

text \<open>
  Claim C10. For every input and every \<open>max_length\<close>, \<open>sanitize_text\<close> returns a
  string whose every character is printable or whitespace and that has neither leading
  nor trailing whitespace; on an input that is no string, and on the empty string, it
  returns the empty string.
\<close>

theorem sanitize_text_clean:
  "(\<forall>c\<in>set (sanitize_text v m). isprintable c \<or> isspace c) \<and>
   no_outer_space (sanitize_text v m) \<and>
   (v = PStr [] \<or> (\<forall>s. v \<noteq> PStr s) \<longrightarrow> sanitize_text v m = [])"
proof (intro conjI impI)
  show "\<forall>c\<in>set (sanitize_text v m). isprintable c \<or> isspace c"
    using sanitize_chars by blast
  show "no_outer_space (sanitize_text v m)"
    by (rule sanitize_no_outer_space)
  assume "v = PStr [] \<or> (\<forall>s. v \<noteq> PStr s)"
  then show "sanitize_text v m = []"
    by (cases v) auto
qed

theorem sanitize_text_clean_witness:
  "sanitize_text (PStr [CHR 0x09, CHR ''h'', CHR 0x07, CHR ''i'', CHR '' '']) sanitize_max_length = ''hi'' \<and>
   no_outer_space (sanitize_text (PStr [CHR 0x09, CHR ''h'', CHR 0x07, CHR ''i'', CHR '' '']) sanitize_max_length) \<and>
   sanitize_text (PInt 3) sanitize_max_length = [] \<and>
   sanitize_text (PStr []) sanitize_max_length = []"
  using sanitize_text_clean [of "PStr [CHR 0x09, CHR ''h'', CHR 0x07, CHR ''i'', CHR '' '']" sanitize_max_length]
    sanitize_text_clean [of "PInt 3" sanitize_max_length]
  by (simp add: sanitize_max_length_def isprintable_def isspace_def strip_def)

text \<open>
  Claim C3, as the code has it. For every input and every \<open>max_length\<close> that is not
  negative (the default is 500), sanitizing the result of \<open>sanitize_text\<close> again gives
  the same string exactly when that result is not \<open>max_length + 1\<close> or
  \<open>max_length + 2\<close> characters long: when it fits in \<open>max_length\<close>, or is
  \<open>max_length + 3\<close> characters long. A result fits when nothing was cut, or when the
  cut at the last space kept at most \<open>max_length - 3\<close> characters; it has
  \<open>max_length + 3\<close> characters when the first \<open>max_length\<close> characters hold no
  space. Only the cut at a space that keeps \<open>max_length - 2\<close> or \<open>max_length - 1\<close>
  characters is cut again by the second pass.
\<close>

theorem sanitize_text_idempotent_iff:
  assumes "0 \<le> m"
  shows "sanitize_text (PStr (sanitize_text v m)) m = sanitize_text v m \<longleftrightarrow>
         int (length (sanitize_text v m)) \<le> m \<or> int (length (sanitize_text v m)) = m + 3"
proof (cases "m < int (length (sanitize_text v m))")
  case False
  then have "sanitize_text (PStr (sanitize_text v m)) m = sanitize_text v m"
    by (simp only: sanitize_text_twice simp_thms if_False)
  with False show ?thesis by simp
next
  case True
  with assms obtain s where r: "sanitize_text v m =
      rsplit_head (take (nat m) (strip (filter (\<lambda>c. isprintable c \<or> isspace c) s))) @ ''...''"
    and long: "m < int (length (strip (filter (\<lambda>c. isprintable c \<or> isspace c) s)))"
    by (rule sanitize_text_long)
  define t where "t = take (nat m) (strip (filter (\<lambda>c. isprintable c \<or> isspace c) s))"
  define h where "h = rsplit_head t"
  have lt: "length t = nat m" using long assms by (simp add: t_def)
  have lh: "length h \<le> nat m" using length_rsplit_head [of t] lt by (simp add: h_def)
  have r': "sanitize_text v m = h @ ''...''" using r by (simp add: h_def t_def)
  have len: "int (length (sanitize_text v m)) = int (length h) + 3" by (simp add: r')
  have near: "nat m < length h + 3" using True len by linarith
  have nonempty: "sanitize_text v m \<noteq> []" using True assms by auto
  have t1: "sanitize_text (PStr (sanitize_text v m)) m =
            rsplit_head (slice_to (sanitize_text v m) m) @ ''...''"
    using True nonempty by (simp only: sanitize_text_twice simp_thms if_True)
  have t2: "slice_to (sanitize_text v m) m = h @ take (nat m - length h) ''...''"
    using assms lh by (simp add: r' slice_to_def)
  have twice: "sanitize_text (PStr (sanitize_text v m)) m =
               rsplit_head (h @ take (nat m - length h) ''...'') @ ''...''"
    by (simp only: t1 t2)
  show ?thesis
  proof (cases "length h = nat m")
    case full: True
    then have "rsplit_head t = t" using lt by (simp add: h_def rsplit_head_full)
    then have "rsplit_head h = h" by (simp add: h_def)
    with full have "sanitize_text (PStr (sanitize_text v m)) m = sanitize_text v m"
      unfolding twice by (simp add: r')
    moreover have "int (length (sanitize_text v m)) = m + 3" using full len assms by simp
    ultimately show ?thesis by simp
  next
    case False
    with lh near have "nat m - length h = 1 \<or> nat m - length h = 2" by linarith
    then have "take (nat m - length h) ''...'' = ''.'' \<or> take (nat m - length h) ''...'' = ''..''"
      by auto
    then have "rsplit_head (h @ take (nat m - length h) ''...'') \<noteq> h"
      by (rule rsplit_head_dots)
    then have "sanitize_text (PStr (sanitize_text v m)) m \<noteq> sanitize_text v m"
      unfolding twice by (simp add: r')
    moreover have "int (length (sanitize_text v m)) \<noteq> m + 3" using False len assms by simp
    moreover have "\<not> int (length (sanitize_text v m)) \<le> m" using True by simp
    ultimately show ?thesis by simp
  qed
qed

theorem sanitize_text_idempotent_iff_witness:
  "(0::int) \<le> sanitize_max_length \<and>
   sanitize_text (PStr (sanitize_text (PStr '' hello world  '') sanitize_max_length)) sanitize_max_length =
     sanitize_text (PStr '' hello world  '') sanitize_max_length \<and>
   sanitize_text (PStr (sanitize_text (PStr (replicate 495 CHR ''a'' @ '' bbbbbbbbbb''))
       sanitize_max_length)) sanitize_max_length =
     sanitize_text (PStr (replicate 495 CHR ''a'' @ '' bbbbbbbbbb'')) sanitize_max_length \<and>
   sanitize_text (PStr (sanitize_text (PStr ''hello world'') 3)) 3 =
     sanitize_text (PStr ''hello world'') 3 \<and>
   sanitize_text (PStr (sanitize_text (PStr ''hello world'') 8)) 8 =
     sanitize_text (PStr ''hello world'') 8 \<and>
   sanitize_text (PStr (sanitize_text (PStr ''hello world'') 7)) 7 \<noteq>
     sanitize_text (PStr ''hello world'') 7"
proof -
  have pos: "(0::int) \<le> 500" "(0::int) \<le> 3" "(0::int) \<le> 8" "(0::int) \<le> 7"
    by simp_all
  have uncut: "int (length (sanitize_text (PStr '' hello world  '') 500)) \<le> 500"
    unfolding sanitize_text_hello by simp
  have cut_short: "int (length (sanitize_text (PStr (replicate 495 CHR ''a'' @ '' bbbbbbbbbb'')) 500)) \<le> 500"
    unfolding sanitize_text_cut_short by simp
  have no_space: "int (length (sanitize_text (PStr ''hello world'') 3)) = 3 + 3"
    unfolding sanitize_text_hello by simp
  have at_space: "int (length (sanitize_text (PStr ''hello world'') 8)) \<le> 8"
    unfolding sanitize_text_hello by simp
  have bad: "\<not> (int (length (sanitize_text (PStr ''hello world'') 7)) \<le> 7 \<or>
                 int (length (sanitize_text (PStr ''hello world'') 7)) = 7 + 3)"
    unfolding sanitize_text_hello by simp
  show ?thesis
    unfolding sanitize_max_length_def
    using pos(1) uncut cut_short no_space at_space bad
      sanitize_text_idempotent_iff [OF pos(1), of "PStr '' hello world  ''"]
      sanitize_text_idempotent_iff [OF pos(1), of "PStr (replicate 495 CHR ''a'' @ '' bbbbbbbbbb'')"]
      sanitize_text_idempotent_iff [OF pos(2), of "PStr ''hello world''"]
      sanitize_text_idempotent_iff [OF pos(3), of "PStr ''hello world''"]
      sanitize_text_idempotent_iff [OF pos(4), of "PStr ''hello world''"]
    by blast
qed

text \<open>
  Claim C3 as stated fails. With the default \<open>max_length = 500\<close>, a text of 498
  letters, a space and ten more letters is cut at the space and becomes 498 letters and
  an ellipsis: 501 characters. Sanitizing that result cuts it to 500 characters, finds
  no space and appends a second ellipsis.
\<close>

theorem sanitize_text_not_idempotent:
  "sanitize_text (PStr (replicate 498 CHR ''a'' @ '' bbbbbbbbbb'')) sanitize_max_length =
     replicate 498 CHR ''a'' @ ''...'' \<and>
   sanitize_text (PStr (sanitize_text (PStr (replicate 498 CHR ''a'' @ '' bbbbbbbbbb''))
       sanitize_max_length)) sanitize_max_length =
     replicate 498 CHR ''a'' @ ''.....'' \<and>
   sanitize_text (PStr (sanitize_text (PStr (replicate 498 CHR ''a'' @ '' bbbbbbbbbb''))
       sanitize_max_length)) sanitize_max_length \<noteq>
     sanitize_text (PStr (replicate 498 CHR ''a'' @ '' bbbbbbbbbb'')) sanitize_max_length"
proof -
  have differ: "replicate 498 CHR ''a'' @ ''.....'' \<noteq> replicate 498 CHR ''a'' @ ''...''"
    by simp
  show ?thesis
    by (simp only: sanitize_max_length_def sanitize_text_cut_once sanitize_text_cut_twice
        differ simp_thms)
qed

section \<open>Properties of the text generation adapter\<close>

subsection \<open>The retry loop\<close>

lemma next_delay_nonneg: "0 \<le> d \<Longrightarrow> 0 \<le> next_delay d"
  by (simp add: next_delay_def)

lemma length_backoff: "length (backoff d n) = n"
  by (induction n arbitrary: d) simp_all

lemma retry_loop_rate_limited:
  assumes "\<forall>j<n. chat_completion E t (k + j) = RateLimitError"
    and "\<forall>j<n. \<not> shutdown_flag E (k + j)"
    and "r + int n < m"
    and "n = 0 \<or> 0 \<le> d"
  shows "retry_loop E t m r d k sl =
         retry_loop E t m (r + int n) ((next_delay ^^ n) d) (k + n) (sl @ backoff d n)"
  using assms
proof (induction n arbitrary: r d k sl)
  case 0
  then show ?case by simp
next
  case (Suc n)
  have c0: "chat_completion E t k = RateLimitError" using Suc.prems(1) by force
  have s0: "\<not> shutdown_flag E k" using Suc.prems(2) by force
  have d0: "0 \<le> d" using Suc.prems(4) by simp
  have step: "retry_loop E t m r d k sl =
              retry_loop E t m (r + 1) (next_delay d) (Suc k) (sl @ [d])"
    using c0 s0 d0 Suc.prems(3)
    by (subst retry_loop.simps) (simp add: next_delay_def)
  have c: "\<forall>j<n. chat_completion E t (Suc k + j) = RateLimitError"
    using Suc.prems(1) by (metis Suc_less_eq add_Suc_shift)
  have s: "\<forall>j<n. \<not> shutdown_flag E (Suc k + j)"
    using Suc.prems(2) by (metis Suc_less_eq add_Suc_shift)
  have r: "(r + 1) + int n < m" using Suc.prems(3) by simp
  have d: "n = 0 \<or> 0 \<le> next_delay d" using d0 by (simp add: next_delay_nonneg)
  have "retry_loop E t m (r + 1) (next_delay d) (Suc k) (sl @ [d]) =
        retry_loop E t m ((r + 1) + int n) ((next_delay ^^ n) (next_delay d)) (Suc k + n)
          ((sl @ [d]) @ backoff (next_delay d) n)"
    using c s r d by (rule Suc.IH)
  with step show ?case by (simp add: funpow_swap1 add.assoc)
qed


lemma retry_loop_exhausted:
  assumes "\<forall>j<nat m. chat_completion E t j = RateLimitError"
    and "\<forall>j<nat m. \<not> shutdown_flag E j"
    and "1 \<le> m"
    and "m = 1 \<or> 0 \<le> d"
  shows "retry_loop E t m 0 d 0 [] =
         \<lparr>returned = Inr too_many_requests, n_calls = nat m, delays = backoff d (nat m - 1)\<rparr>"
proof -
  let ?n = "nat m - 1"
  have n: "int ?n = m - 1" using assms(3) by simp
  have "retry_loop E t m 0 d 0 [] =
        retry_loop E t m (0 + int ?n) ((next_delay ^^ ?n) d) (0 + ?n) ([] @ backoff d ?n)"
    using assms by (intro retry_loop_rate_limited) auto
  also have "\<dots> = \<lparr>returned = Inr too_many_requests, n_calls = Suc ?n, delays = backoff d ?n\<rparr>"
    using assms(1,2,3) n by (subst retry_loop.simps) simp
  also have "Suc ?n = nat m" using assms(3) by simp
  finally show ?thesis .
qed


lemma retry_loop_cases:
  obtains (stop) res n where
      "retry_loop E t m r d k sl = \<lparr>returned = res, n_calls = n, delays = sl\<rparr>"
      and "n = k \<or> n = Suc k" and "n = k \<longrightarrow> res = Inr trouble_processing"
  | (slept) "r < m \<and> \<not> shutdown_flag E k" and "chat_completion E t k = RateLimitError"
      and "\<not> m \<le> r + 1" and "\<not> d < 0"
      and "retry_loop E t m r d k sl =
           retry_loop E t m (r + 1) (min (d * 2) 10) (Suc k) (sl @ [d])"
  | (failed) "r < m \<and> \<not> shutdown_flag E k" and "chat_completion E t k = OtherError"
      and "\<not> m \<le> r + 1"
      and "retry_loop E t m r d k sl = retry_loop E t m (r + 1) d (Suc k) sl"
  | (no_choice) x where "r < m \<and> \<not> shutdown_flag E k"
      and "chat_completion E t k = Completion x" and "x = []" and "\<not> m \<le> r + 1"
      and "retry_loop E t m r d k sl = retry_loop E t m (r + 1) d (Suc k) sl"
proof (cases "r < m \<and> \<not> shutdown_flag E k")
  case False
  then have "retry_loop E t m r d k sl =
             \<lparr>returned = Inr trouble_processing, n_calls = k, delays = sl\<rparr>"
    by (subst retry_loop.simps) (simp only: if_False)
  then show ?thesis by (rule stop) simp_all
next
  case go: True
  show ?thesis
  proof (cases "chat_completion E t k")
    case RateLimitError
    show ?thesis
    proof (cases "m \<le> r + 1")
      case True
      with go RateLimitError have "retry_loop E t m r d k sl =
          \<lparr>returned = Inr too_many_requests, n_calls = Suc k, delays = sl\<rparr>"
        by (subst retry_loop.simps) simp
      then show ?thesis by (rule stop) simp_all
    next
      case more: False
      show ?thesis
      proof (cases "d < 0")
        case True
        with go RateLimitError more have "retry_loop E t m r d k sl =
            \<lparr>returned = Inl (Exception ''sleep length must be non-negative''),
             n_calls = Suc k, delays = sl\<rparr>"
          by (subst retry_loop.simps) simp
        then show ?thesis by (rule stop) simp_all
      next
        case False
        with go RateLimitError more have "retry_loop E t m r d k sl =
            retry_loop E t m (r + 1) (min (d * 2) 10) (Suc k) (sl @ [d])"
          by (subst retry_loop.simps) simp
        with go RateLimitError more False show ?thesis by (rule slept)
      qed
    qed
  next
    case APIError
    with go have "retry_loop E t m r d k sl =
        \<lparr>returned = Inr trouble_connecting, n_calls = Suc k, delays = sl\<rparr>"
      by (subst retry_loop.simps) simp
    then show ?thesis by (rule stop) simp_all
  next
    case OtherError
    show ?thesis
    proof (cases "m \<le> r + 1")
      case True
      with go OtherError have "retry_loop E t m r d k sl =
          \<lparr>returned = Inr sorry_error, n_calls = Suc k, delays = sl\<rparr>"
        by (subst retry_loop.simps) simp
      then show ?thesis by (rule stop) simp_all
    next
      case False
      with go OtherError have "retry_loop E t m r d k sl =
          retry_loop E t m (r + 1) d (Suc k) sl"
        by (subst retry_loop.simps) simp
      with go OtherError False show ?thesis by (rule failed)
    qed
  next
    case (Completion x)
    show ?thesis
    proof (cases x)
      case (Cons c cs)
      with go Completion have "retry_loop E t m r d k sl =
          \<lparr>returned = Inr (strip c), n_calls = Suc k, delays = sl\<rparr>"
        by (subst retry_loop.simps) simp
      then show ?thesis by (rule stop) simp_all
    next
      case Nil
      show ?thesis
      proof (cases "m \<le> r + 1")
        case True
        with go Completion Nil have "retry_loop E t m r d k sl =
            \<lparr>returned = Inr sorry_error, n_calls = Suc k, delays = sl\<rparr>"
          by (subst retry_loop.simps) simp
        then show ?thesis by (rule stop) simp_all
      next
        case False
        with go Completion Nil have "retry_loop E t m r d k sl =
            retry_loop E t m (r + 1) d (Suc k) sl"
          by (subst retry_loop.simps) simp
        with go Completion Nil False show ?thesis by (rule no_choice)
      qed
    qed
  qed
qed

lemma retry_loop_calls:
  "k \<le> n_calls (retry_loop E t m r d k sl) \<and>
   (n_calls (retry_loop E t m r d k sl) = k \<longrightarrow>
      returned (retry_loop E t m r d k sl) = Inr trouble_processing)"
proof (induction E t m r d k sl rule: retry_loop.induct)
  case (1 E t m r d k sl)
  show ?case
  proof (cases rule: retry_loop_cases [of E t m r d k sl])
    case (stop res n)
    then show ?thesis by auto
  next
    case slept
    with "1.IH"(1) show ?thesis by simp
  next
    case failed
    with "1.IH"(2) show ?thesis by simp
  next
    case (no_choice x)
    with "1.IH"(3) show ?thesis by simp
  qed
qed

lemma retry_loop_delays:
  "\<exists>tail. delays (retry_loop E t m r d k sl) = sl @ tail \<and>
     (tail \<noteq> [] \<longrightarrow> hd tail = d \<and> 0 \<le> d) \<and>
     (d \<le> 10 \<longrightarrow> sorted tail \<and> (\<forall>x\<in>set tail. d \<le> x \<and> x \<le> 10))"
proof (induction E t m r d k sl rule: retry_loop.induct)
  case (1 E t m r d k sl)
  show ?case
  proof (cases rule: retry_loop_cases [of E t m r d k sl])
    case (stop res n)
    then have "delays (retry_loop E t m r d k sl) = sl @ []" by simp
    then show ?thesis by (intro exI [of _ "[]"]) simp
  next
    case slept
    from "1.IH"(1) [OF slept(1-4)] obtain tail where
      t: "delays (retry_loop E t m (r + 1) (min (d * 2) 10) (Suc k) (sl @ [d])) = (sl @ [d]) @ tail"
      and b: "min (d * 2) 10 \<le> 10 \<longrightarrow>
              sorted tail \<and> (\<forall>x\<in>set tail. min (d * 2) 10 \<le> x \<and> x \<le> 10)"
      by blast
    have d0: "0 \<le> d" using slept(4) by simp
    have eq: "delays (retry_loop E t m r d k sl) = sl @ (d # tail)"
      by (simp only: slept(5) t) simp
    have srt: "sorted tail" using b by simp
    have rng: "\<forall>x\<in>set tail. min (d * 2) 10 \<le> x \<and> x \<le> 10" using b by simp
    have bound: "d \<le> 10 \<longrightarrow> sorted (d # tail) \<and> (\<forall>x\<in>set (d # tail). d \<le> x \<and> x \<le> 10)"
    proof
      assume le: "d \<le> 10"
      have up: "d \<le> min (d * 2) 10" using d0 le by simp
      have lower: "\<forall>x\<in>set tail. d \<le> x"
      proof
        fix x assume "x \<in> set tail"
        with rng have "min (d * 2) 10 \<le> x" by blast
        with up show "d \<le> x" by (rule order_trans)
      qed
      have upper: "\<forall>x\<in>set tail. x \<le> 10" using rng by blast
      have "sorted (d # tail)" unfolding sorted_simps using lower srt by blast
      moreover have "\<forall>x\<in>set (d # tail). d \<le> x \<and> x \<le> 10"
      proof
        fix x assume "x \<in> set (d # tail)"
        then have "x = d \<or> x \<in> set tail" by simp
        then show "d \<le> x \<and> x \<le> 10"
        proof
          assume "x = d"
          with le show ?thesis by simp
        next
          assume "x \<in> set tail"
          with lower upper show ?thesis by blast
        qed
      qed
      ultimately show "sorted (d # tail) \<and> (\<forall>x\<in>set (d # tail). d \<le> x \<and> x \<le> 10)" ..
    qed
    have first: "d # tail \<noteq> [] \<longrightarrow> hd (d # tail) = d \<and> 0 \<le> d" using d0 by simp
    from eq first bound show ?thesis by blast
  next
    case failed
    from "1.IH"(2) [OF failed(1-3)] show ?thesis by (simp only: failed(4))
  next
    case (no_choice x)
    from "1.IH"(3) [OF no_choice(1-4)] show ?thesis by (simp only: no_choice(5))
  qed
qed

subsection \<open>Validation\<close>

lemma strip_Nil: "strip [] = []"
  by (simp add: strip_def)

lemma validate_input_str:
  "validate_input (PStr s) n =
     (if strip s = [] then (False, didnt_catch)
      else if n < int (length (strip s)) then (False, too_long n)
      else (True, strip s))"
  by (cases "s = []") (simp_all add: strip_Nil Let_def)

lemma validate_input_valid:
  assumes "fst (validate_input text n)"
  obtains s where "text = PStr s" and "strip s \<noteq> []" and "int (length (strip s)) \<le> n"
    and "validate_input text n = (True, strip s)"
proof (cases "text")
  case (PStr s)
  have v: "validate_input text n =
     (if strip s = [] then (False, didnt_catch)
      else if n < int (length (strip s)) then (False, too_long n)
      else (True, strip s))"
    unfolding PStr by (rule validate_input_str)
  from assms v have "strip s \<noteq> []" and "int (length (strip s)) \<le> n"
    and "validate_input text n = (True, strip s)"
    by (auto split: if_splits)
  with PStr show ?thesis by (rule that)
qed (use assms in simp_all)

lemma process_text_valid:
  "validate_input text 1000 = (True, t) \<Longrightarrow>
   process_text E text m d = retry_loop E t m 0 d 0 []"
  by (simp add: process_text_def)

lemma process_text_invalid:
  "validate_input text 1000 = (False, msg) \<Longrightarrow>
   process_text E text m d = \<lparr>returned = Inr msg, n_calls = 0, delays = []\<rparr>"
  by (simp add: process_text_def)

lemma too_long_1000:
  "too_long 1000 = ''Your message is too long. Please keep it under 1000 characters.''"
  by code_simp

lemma retry_loop_stopped:
  "\<not> (r < m \<and> \<not> shutdown_flag E k) \<Longrightarrow>
   retry_loop E t m r d k sl = \<lparr>returned = Inr trouble_processing, n_calls = k, delays = sl\<rparr>"
  by (subst retry_loop.simps) (simp only: if_False)

lemma validate_hi: "validate_input (PStr ''hi'') 1000 = (True, ''hi'')"
  by (simp add: validate_input_str strip_def isspace_def)

lemma strip_padded: "strip (CHR ''a'' # replicate n CHR '' '') = ''a''"
proof -
  have a: "\<not> isspace CHR ''a''" and sp: "isspace CHR '' ''"
    by (simp_all add: isspace_def)
  have "dropWhile isspace (replicate n CHR '' '' @ ''a'') = dropWhile isspace ''a''"
    by (rule dropWhile_append2) (use sp in simp)
  with a show ?thesis by (simp add: strip_def)
qed

lemma strip_blank: "strip (replicate n CHR '' '') = []"
proof -
  have "isspace CHR '' ''" by (simp add: isspace_def)
  then have "dropWhile isspace (replicate n CHR '' '') = []" by simp
  then show ?thesis by (simp add: strip_def)
qed


subsection \<open>The claims on \<open>process_text\<close>\<close>

text \<open>
  Claim C9. For every valid input text (one that \<open>validate_input\<close> accepts), whatever
  \<open>max_retries\<close> and \<open>initial_delay\<close> are: if the shutdown flag is set when
  \<open>process_text\<close> first evaluates its loop condition, it makes no call to the chat
  service and returns the fixed fallback string.
\<close>

theorem process_text_shutdown_before_loop:
  assumes "fst (validate_input text 1000)" and "shutdown_flag E 0"
  shows "process_text E text max_retries initial_delay =
         \<lparr>returned = Inr ''I'm having trouble processing your request. Please try again later.'',
          n_calls = 0, delays = []\<rparr>"
proof -
  from assms(1) obtain s where "validate_input text 1000 = (True, strip s)"
    by (rule validate_input_valid)
  then have "process_text E text max_retries initial_delay =
             retry_loop E (strip s) max_retries 0 initial_delay 0 []"
    by (rule process_text_valid)
  also have "\<dots> = \<lparr>returned = Inr trouble_processing, n_calls = 0, delays = []\<rparr>"
    using assms(2) by (intro retry_loop_stopped) simp
  finally show ?thesis by (simp add: trouble_processing_def)
qed

theorem process_text_shutdown_before_loop_witness:
  "fst (validate_input (PStr ''hi'') 1000) \<and>
   shutdown_flag \<lparr>chat_completion = \<lambda>t k. Completion [''ok''], shutdown_flag = \<lambda>k. True\<rparr> 0 \<and>
   process_text \<lparr>chat_completion = \<lambda>t k. Completion [''ok''], shutdown_flag = \<lambda>k. True\<rparr>
     (PStr ''hi'') 3 1 =
   \<lparr>returned = Inr ''I'm having trouble processing your request. Please try again later.'',
    n_calls = 0, delays = []\<rparr>"
proof -
  have v: "fst (validate_input (PStr ''hi'') 1000)" unfolding validate_hi by simp
  have f: "shutdown_flag \<lparr>chat_completion = \<lambda>t k. Completion [''ok''], shutdown_flag = \<lambda>k. True\<rparr> 0"
    by simp
  from v f process_text_shutdown_before_loop [OF v f, of 3 1] show ?thesis by (intro conjI)
qed

text \<open>
  Claim C6, as the code has it. \<open>validate_input\<close> strips the text before it measures
  it: \<open>process_text\<close> returns the length message (naming 1000) without a call to the
  chat service exactly when the text is longer than 1000 characters after its leading
  and trailing whitespace is removed.
\<close>

theorem process_text_too_long:
  "returned (process_text E (PStr s) max_retries initial_delay) =
     Inr ''Your message is too long. Please keep it under 1000 characters.'' \<and>
   n_calls (process_text E (PStr s) max_retries initial_delay) = 0
   \<longleftrightarrow> 1000 < length (strip s)"
proof (cases "strip s = []")
  case True
  then have "validate_input (PStr s) 1000 = (False, didnt_catch)"
    by (simp add: validate_input_str del: validate_input.simps)
  then have "process_text E (PStr s) max_retries initial_delay =
             \<lparr>returned = Inr didnt_catch, n_calls = 0, delays = []\<rparr>"
    by (rule process_text_invalid)
  then have "returned (process_text E (PStr s) max_retries initial_delay) = Inr didnt_catch"
    by simp
  moreover have "didnt_catch \<noteq> ''Your message is too long. Please keep it under 1000 characters.''"
    by (simp add: didnt_catch_def)
  ultimately show ?thesis using True by simp
next
  case False
  show ?thesis
  proof (cases "1000 < length (strip s)")
    case long: True
    with False have "validate_input (PStr s) 1000 = (False, too_long 1000)"
      by (simp add: validate_input_str del: validate_input.simps)
    then have "process_text E (PStr s) max_retries initial_delay =
               \<lparr>returned = Inr (too_long 1000), n_calls = 0, delays = []\<rparr>"
      by (rule process_text_invalid)
    with long show ?thesis by (simp only: too_long_1000) simp
  next
    case short: False
    with False have "validate_input (PStr s) 1000 = (True, strip s)"
      by (simp add: validate_input_str del: validate_input.simps)
    then have run: "process_text E (PStr s) max_retries initial_delay =
               retry_loop E (strip s) max_retries 0 initial_delay 0 []"
      by (rule process_text_valid)
    have "n_calls (retry_loop E (strip s) max_retries 0 initial_delay 0 []) = 0 \<longrightarrow>
          returned (retry_loop E (strip s) max_retries 0 initial_delay 0 []) = Inr trouble_processing"
      using retry_loop_calls [of 0 E "strip s" max_retries 0 initial_delay "[]"] by blast
    moreover have "trouble_processing \<noteq>
        ''Your message is too long. Please keep it under 1000 characters.''"
      by (simp add: trouble_processing_def)
    ultimately have "\<not> (returned (retry_loop E (strip s) max_retries 0 initial_delay 0 []) =
        Inr ''Your message is too long. Please keep it under 1000 characters.'' \<and>
        n_calls (retry_loop E (strip s) max_retries 0 initial_delay 0 []) = 0)"
      by auto
    with short show ?thesis unfolding run by simp
  qed
qed

theorem process_text_too_long_witness:
  "returned (process_text \<lparr>chat_completion = \<lambda>t k. Completion [''ok''], shutdown_flag = \<lambda>k. False\<rparr>
     (PStr (replicate 1001 CHR ''a'')) 3 1) =
     Inr ''Your message is too long. Please keep it under 1000 characters.'' \<and>
   n_calls (process_text \<lparr>chat_completion = \<lambda>t k. Completion [''ok''], shutdown_flag = \<lambda>k. False\<rparr>
     (PStr (replicate 1001 CHR ''a'')) 3 1) = 0"
proof -
  have "no_outer_space (replicate 1001 CHR ''a'')"
    by (simp add: no_outer_space_def isspace_def)
  then have "strip (replicate 1001 CHR ''a'') = replicate 1001 CHR ''a''" by (rule strip_fix)
  then have "1000 < length (strip (replicate 1001 CHR ''a''))" by simp
  then show ?thesis
    by (rule process_text_too_long [THEN iffD2])
qed

text \<open>
  Claim C6 as stated fails on texts whose length beyond 1000 is whitespace around them.
  The letter \<open>a\<close> followed by 1000 spaces (1001 characters) is valid input: the service
  is called and its reply returned. 1001 spaces are rejected, but as empty input.
\<close>

theorem process_text_long_padded:
  "length (CHR ''a'' # replicate 1000 CHR '' '') = 1001 \<and>
   process_text \<lparr>chat_completion = \<lambda>t k. Completion [''ok''], shutdown_flag = \<lambda>k. False\<rparr>
     (PStr (CHR ''a'' # replicate 1000 CHR '' '')) 3 1 =
   \<lparr>returned = Inr ''ok'', n_calls = 1, delays = []\<rparr> \<and>
   length (replicate 1001 CHR '' '') = 1001 \<and>
   process_text \<lparr>chat_completion = \<lambda>t k. Completion [''ok''], shutdown_flag = \<lambda>k. False\<rparr>
     (PStr (replicate 1001 CHR '' '')) 3 1 =
   \<lparr>returned = Inr ''I didn't catch that. Could you please repeat?'', n_calls = 0, delays = []\<rparr>"
proof -
  let ?E = "\<lparr>chat_completion = \<lambda>t k. Completion [''ok''], shutdown_flag = \<lambda>k. False\<rparr>"
  have "validate_input (PStr (CHR ''a'' # replicate 1000 CHR '' '')) 1000 = (True, ''a'')"
    by (simp add: validate_input_str strip_padded del: validate_input.simps)
  then have "process_text ?E (PStr (CHR ''a'' # replicate 1000 CHR '' '')) 3 1 =
             retry_loop ?E ''a'' 3 0 1 0 []"
    by (rule process_text_valid)
  also have "\<dots> = \<lparr>returned = Inr ''ok'', n_calls = 1, delays = []\<rparr>"
    by (subst retry_loop.simps) (simp add: strip_def isspace_def)
  finally have 1: "process_text ?E (PStr (CHR ''a'' # replicate 1000 CHR '' '')) 3 1 =
                   \<lparr>returned = Inr ''ok'', n_calls = 1, delays = []\<rparr>" .
  have "validate_input (PStr (replicate 1001 CHR '' '')) 1000 = (False, didnt_catch)"
    by (simp add: validate_input_str strip_blank del: validate_input.simps)
  then have "process_text ?E (PStr (replicate 1001 CHR '' '')) 3 1 =
             \<lparr>returned = Inr didnt_catch, n_calls = 0, delays = []\<rparr>"
    by (rule process_text_invalid)
  then have 2: "process_text ?E (PStr (replicate 1001 CHR '' '')) 3 1 =
      \<lparr>returned = Inr ''I didn't catch that. Could you please repeat?'', n_calls = 0, delays = []\<rparr>"
    by (simp add: didnt_catch_def)
  have 3: "length (CHR ''a'' # replicate 1000 CHR '' '') = 1001"
    and 4: "length (replicate 1001 CHR '' '') = 1001" by simp_all
  from 3 1 4 2 show ?thesis by (intro conjI)
qed




text \<open>
  Claim C5, as the code has it. For every call of \<open>process_text\<close>, whatever the service
  answers: the delays slept start at \<open>initial_delay\<close>; and they are non-decreasing and
  at most 10 seconds exactly when \<open>initial_delay \<le> 10\<close> or nothing is slept. (The cap
  is applied to the doubled delay only, never to \<open>initial_delay\<close> itself.)
\<close>

theorem process_text_backoff:
  "(delays (process_text E text max_retries initial_delay) \<noteq> [] \<longrightarrow>
      hd (delays (process_text E text max_retries initial_delay)) = initial_delay) \<and>
   (sorted (delays (process_text E text max_retries initial_delay)) \<and>
    (\<forall>x\<in>set (delays (process_text E text max_retries initial_delay)). x \<le> 10)
    \<longleftrightarrow> delays (process_text E text max_retries initial_delay) = [] \<or> initial_delay \<le> 10)"
proof -
  define ds where "ds = delays (process_text E text max_retries initial_delay)"
  have inv: "(ds \<noteq> [] \<longrightarrow> hd ds = initial_delay) \<and>
             (initial_delay \<le> 10 \<longrightarrow> sorted ds \<and> (\<forall>x\<in>set ds. x \<le> 10))"
  proof (cases "validate_input text 1000")
    case (Pair ok res)
    show ?thesis
    proof (cases ok)
      case False
      with Pair have "process_text E text max_retries initial_delay =
                      \<lparr>returned = Inr res, n_calls = 0, delays = []\<rparr>"
        by (simp add: process_text_invalid)
      then have "ds = []" by (simp add: ds_def)
      then show ?thesis by simp
    next
      case True
      with Pair have "process_text E text max_retries initial_delay =
                      retry_loop E res max_retries 0 initial_delay 0 []"
        by (simp add: process_text_valid)
      then have ds: "ds = delays (retry_loop E res max_retries 0 initial_delay 0 [])"
        by (simp add: ds_def)
      from retry_loop_delays [of E res max_retries 0 initial_delay 0 "[]"]
      obtain tail where "delays (retry_loop E res max_retries 0 initial_delay 0 []) = [] @ tail"
        and h: "tail \<noteq> [] \<longrightarrow> hd tail = initial_delay \<and> 0 \<le> initial_delay"
        and b: "initial_delay \<le> 10 \<longrightarrow>
                sorted tail \<and> (\<forall>x\<in>set tail. initial_delay \<le> x \<and> x \<le> 10)"
        by blast
      then have "ds = tail" using ds by simp
      with h b show ?thesis by blast
    qed
  qed
  have "sorted ds \<and> (\<forall>x\<in>set ds. x \<le> 10) \<longleftrightarrow> ds = [] \<or> initial_delay \<le> 10"
  proof
    assume good: "sorted ds \<and> (\<forall>x\<in>set ds. x \<le> 10)"
    show "ds = [] \<or> initial_delay \<le> 10"
    proof (cases "ds = []")
      case False
      then have "hd ds \<in> set ds" by (rule hd_in_set)
      with good have "hd ds \<le> 10" by blast
      moreover from inv False have "hd ds = initial_delay" by blast
      ultimately show ?thesis by simp
    qed simp
  next
    assume "ds = [] \<or> initial_delay \<le> 10"
    then show "sorted ds \<and> (\<forall>x\<in>set ds. x \<le> 10)"
    proof
      assume "ds = []"
      then show ?thesis by simp
    next
      assume "initial_delay \<le> 10"
      with inv show ?thesis by blast
    qed
  qed
  with inv show ?thesis unfolding ds_def by blast
qed

theorem process_text_backoff_witness:
  "delays (process_text \<lparr>chat_completion = \<lambda>t k. RateLimitError, shutdown_flag = \<lambda>k. False\<rparr>
     (PStr ''hi'') 4 1) = [1, 2, 4] \<and>
   hd (delays (process_text \<lparr>chat_completion = \<lambda>t k. RateLimitError, shutdown_flag = \<lambda>k. False\<rparr>
     (PStr ''hi'') 4 1)) = 1 \<and>
   sorted (delays (process_text \<lparr>chat_completion = \<lambda>t k. RateLimitError, shutdown_flag = \<lambda>k. False\<rparr>
     (PStr ''hi'') 4 1)) \<and>
   list_all (\<lambda>x. x \<le> 10)
     (delays (process_text \<lparr>chat_completion = \<lambda>t k. RateLimitError, shutdown_flag = \<lambda>k. False\<rparr>
       (PStr ''hi'') 4 1))"
proof -
  let ?F = "\<lparr>chat_completion = \<lambda>t k. RateLimitError, shutdown_flag = \<lambda>k. False\<rparr>"
  have run: "process_text ?F (PStr ''hi'') 4 1 =
             \<lparr>returned = Inr too_many_requests, n_calls = 4, delays = backoff 1 3\<rparr>"
    unfolding process_text_valid [OF validate_hi]
    using retry_loop_exhausted [of 4 ?F "''hi''" 1] by simp
  have b: "backoff 1 3 = [1, 2, 4]" by (simp add: eval_nat_numeral next_delay_def)
  have ds: "delays (process_text ?F (PStr ''hi'') 4 1) = [1, 2, 4]"
    unfolding run b by simp
  have ne: "delays (process_text ?F (PStr ''hi'') 4 1) \<noteq> []" unfolding ds by simp
  have le: "(1::real) \<le> 10" by simp
  from process_text_backoff [of ?F "PStr ''hi''" 4 1] ne le
  have "hd (delays (process_text ?F (PStr ''hi'') 4 1)) = 1"
    and "sorted (delays (process_text ?F (PStr ''hi'') 4 1))"
    and "\<forall>x\<in>set (delays (process_text ?F (PStr ''hi'') 4 1)). x \<le> 10"
    by blast+
  with ds show ?thesis by (simp only: list_all_iff)
qed

text \<open>
  Claim C5 as stated fails for an initial delay above the cap: with
  \<open>initial_delay = 20\<close>, \<open>max_retries = 3\<close> and a service that always answers with a
  rate-limit error, the delays slept are 20 and then 10 seconds.
\<close>

theorem process_text_backoff_counterexample:
  "delays (process_text \<lparr>chat_completion = \<lambda>t k. RateLimitError, shutdown_flag = \<lambda>k. False\<rparr>
     (PStr ''hi'') 3 20) = [20, 10] \<and>
   \<not> sorted (delays (process_text
       \<lparr>chat_completion = \<lambda>t k. RateLimitError, shutdown_flag = \<lambda>k. False\<rparr> (PStr ''hi'') 3 20)) \<and>
   \<not> list_all (\<lambda>x. x \<le> 10) (delays (process_text
       \<lparr>chat_completion = \<lambda>t k. RateLimitError, shutdown_flag = \<lambda>k. False\<rparr> (PStr ''hi'') 3 20))"
proof -
  let ?F = "\<lparr>chat_completion = \<lambda>t k. RateLimitError, shutdown_flag = \<lambda>k. False\<rparr>"
  have run: "process_text ?F (PStr ''hi'') 3 20 =
             \<lparr>returned = Inr too_many_requests, n_calls = 3, delays = backoff 20 2\<rparr>"
    unfolding process_text_valid [OF validate_hi]
    using retry_loop_exhausted [of 3 ?F "''hi''" 20] by simp
  have b: "backoff 20 2 = [20, 10]" by (simp add: eval_nat_numeral next_delay_def)
  show ?thesis unfolding run b by simp
qed

section \<open>Properties of the server\<close>

subsection \<open>Sending, replying, processing audio\<close>

lemma send_json_cases:
  obtains (raised) e where "send_raises E (send_attempts st) = Some e"
      and "send_json E ws msg st = (Some e, st\<lparr>send_attempts := Suc (send_attempts st)\<rparr>)"
  | (delivered) "send_raises E (send_attempts st) = None"
      and "send_json E ws msg st =
           (None, st\<lparr>send_attempts := Suc (send_attempts st), sent := sent st @ [(ws, msg)]\<rparr>)"
  by (cases "send_raises E (send_attempts st)") (simp_all add: send_json_def)

lemma send_json_frame:
  "active_connections (snd (send_json E ws msg st)) = active_connections st"
  "closed (snd (send_json E ws msg st)) = closed st"
  "transcribe_calls (snd (send_json E ws msg st)) = transcribe_calls st"
  "chat_calls (snd (send_json E ws msg st)) = chat_calls st"
  "fs (snd (send_json E ws msg st)) = fs st"
  by (cases rule: send_json_cases [of E st ws msg]; simp)+

lemma send_json_raised:
  "fst (send_json E ws msg st) = Some e \<Longrightarrow>
   send_raises E (send_attempts st) = Some e \<and> sent (snd (send_json E ws msg st)) = sent st"
  by (cases rule: send_json_cases [of E st ws msg]) simp_all

lemma text_to_speech_file:
  "file_exists (snd (text_to_speech E text fs0)) (next_tmp fs0)"
  by (simp add: text_to_speech_def Let_def file_exists_def write_file_def split: sum.split)

lemma respond_eq:
  "respond E ws kind user_text st =
   send_json E ws
     (reply_message kind (process_text_with_openai E user_text (chat_calls st))
        (fst (text_to_speech E (process_text_with_openai E user_text (chat_calls st)) (fs st))))
     (st\<lparr>chat_calls := Suc (chat_calls st),
         fs := snd (text_to_speech E (process_text_with_openai E user_text (chat_calls st)) (fs st))\<rparr>)"
  by (simp add: respond_def Let_def split: prod.split)

lemma respond_frame:
  "active_connections (snd (respond E ws kind user_text st)) = active_connections st"
  "closed (snd (respond E ws kind user_text st)) = closed st"
  "transcribe_calls (snd (respond E ws kind user_text st)) = transcribe_calls st"
  by (simp_all add: respond_eq send_json_frame)

lemma respond_raised:
  assumes "fst (respond E ws kind user_text st) = Some e"
  shows "(\<exists>k. send_raises E k = Some e) \<and> sent (snd (respond E ws kind user_text st)) = sent st"
proof -
  from assms have "fst (send_json E ws
     (reply_message kind (process_text_with_openai E user_text (chat_calls st))
        (fst (text_to_speech E (process_text_with_openai E user_text (chat_calls st)) (fs st))))
     (st\<lparr>chat_calls := Suc (chat_calls st),
         fs := snd (text_to_speech E (process_text_with_openai E user_text (chat_calls st)) (fs st))\<rparr>))
     = Some e"
    by (simp only: respond_eq)
  from send_json_raised [OF this] show ?thesis
    by (auto simp: respond_eq)
qed

lemma process_audio_cases:
  obtains (undecodable) m where "b64decode E a = Inl m"
      and "process_audio E ws a st =
           (Some (Exception m),
            st\<lparr>fs := write_file (next_tmp (fs st)) [] ((fs st)\<lparr>next_tmp := Suc (next_tmp (fs st))\<rparr>)\<rparr>)"
  | (untranscribed) wav m where "b64decode E a = Inr wav" and "atranscribe E wav = Inl m"
      and "process_audio E ws a st =
           (Some (Exception m),
            st\<lparr>fs := write_file (next_tmp (fs st)) wav
                        (write_file (next_tmp (fs st)) [] ((fs st)\<lparr>next_tmp := Suc (next_tmp (fs st))\<rparr>)),
                transcribe_calls := Suc (transcribe_calls st)\<rparr>)"
  | (answered) wav user_text where "b64decode E a = Inr wav" and "atranscribe E wav = Inr user_text"
      and "process_audio E ws a st =
           respond E ws ''audio_response'' (PStr user_text)
             (st\<lparr>fs := write_file (next_tmp (fs st)) wav
                        (write_file (next_tmp (fs st)) [] ((fs st)\<lparr>next_tmp := Suc (next_tmp (fs st))\<rparr>)),
                 transcribe_calls := Suc (transcribe_calls st)\<rparr>)"
proof (cases "b64decode E a")
  case (Inl m)
  then show ?thesis by (intro undecodable [of m]) (simp_all add: process_audio_def Let_def)
next
  case (Inr wav)
  show ?thesis
  proof (cases "atranscribe E wav")
    case (Inl m)
    with Inr show ?thesis
      by (intro untranscribed [of wav m]) (simp_all add: process_audio_def Let_def)
  next
    case inr: (Inr user_text)
    with Inr show ?thesis
      by (intro answered [of wav user_text]) (simp_all add: process_audio_def Let_def)
  qed
qed

lemma process_audio_frame:
  "active_connections (snd (process_audio E ws a st)) = active_connections st"
  "closed (snd (process_audio E ws a st)) = closed st"
  by (cases rule: process_audio_cases [of E a ws st]; simp add: respond_frame)+

lemma process_audio_raised:
  assumes "fst (process_audio E ws a st) = Some e"
  shows "sent (snd (process_audio E ws a st)) = sent st"
proof (cases rule: process_audio_cases [of E a ws st])
  case (answered wav user_text)
  with assms respond_raised [of E ws "''audio_response''" "PStr user_text" _ e]
  show ?thesis by simp
qed simp_all

subsection \<open>One message\<close>

lemma dict_get_cases:
  obtains (no_dict) "\<forall>kvs. data \<noteq> PDict kvs"
      and "\<And>key dflt. dict_get data key dflt = Inl (Exception (no_attribute_get data))"
  | (dict) kvs where "data = PDict kvs"
      and "\<And>key dflt. dict_get data key dflt =
             Inr (case map_of kvs key of None \<Rightarrow> dflt | Some v \<Rightarrow> v)"
  by (cases data) simp_all

lemma handle_message_no_dict:
  "\<forall>kvs. data \<noteq> PDict kvs \<Longrightarrow>
   handle_message E ws data st = (Some (Exception (no_attribute_get data)), st)"
  by (cases data) (simp_all add: handle_message_def)

lemma handle_message_no_audio:
  assumes "dict_get data ''type'' PNone = Inr (PStr ''audio'')"
    and "dict_get data ''audio'' PNone = Inr a" and "\<not> truthy a"
  shows "handle_message E ws data st =
         send_json E ws (error_message ''No audio data received'') st"
  using assms by (simp add: handle_message_def)

lemma handle_message_audio:
  assumes "dict_get data ''type'' PNone = Inr (PStr ''audio'')"
    and "dict_get data ''audio'' PNone = Inr a" and "truthy a"
  shows "handle_message E ws data st =
         (case process_audio E ws a st of
            (None, st') \<Rightarrow> (None, st')
          | (Some e, st') \<Rightarrow>
              send_json E ws (error_message (''Error processing audio: '' @ str_exn e)) st')"
  using assms by (simp add: handle_message_def)

lemma handle_message_text:
  assumes "dict_get data ''type'' PNone = Inr ty" and "ty \<noteq> PStr ''audio''"
    and "ty = PStr ''text''" and "dict_get data ''text'' (PStr []) = Inr user_text"
  shows "handle_message E ws data st = respond E ws ''text_response'' user_text st"
  using assms by (simp add: handle_message_def)

lemma handle_message_other:
  assumes "dict_get data ''type'' PNone = Inr ty" and "ty \<noteq> PStr ''audio''"
    and "ty \<noteq> PStr ''text''"
  shows "handle_message E ws data st = (None, st)"
  using assms by (simp add: handle_message_def)

lemma handle_message_cases:
  obtains (no_dict) "handle_message E ws data st = (Some (Exception (no_attribute_get data)), st)"
  | (no_audio) "handle_message E ws data st =
                send_json E ws (error_message ''No audio data received'') st"
  | (audio_done) a st' where "process_audio E ws a st = (None, st')"
      and "handle_message E ws data st = (None, st')"
  | (audio_failed) a e st' where "process_audio E ws a st = (Some e, st')"
      and "handle_message E ws data st =
           send_json E ws (error_message (''Error processing audio: '' @ str_exn e)) st'"
  | (text_message) user_text where
      "handle_message E ws data st = respond E ws ''text_response'' user_text st"
  | (ignored) "handle_message E ws data st = (None, st)"
proof (cases rule: dict_get_cases [of data])
  case no_dict
  then show ?thesis using handle_message_no_dict that(1) by blast
next
  case (dict kvs)
  define ty where "ty = (case map_of kvs ''type'' of None \<Rightarrow> PNone | Some v \<Rightarrow> v)"
  define a where "a = (case map_of kvs ''audio'' of None \<Rightarrow> PNone | Some v \<Rightarrow> v)"
  define u where "u = (case map_of kvs ''text'' of None \<Rightarrow> PStr [] | Some v \<Rightarrow> v)"
  have t: "dict_get data ''type'' PNone = Inr ty" by (simp add: dict(2) ty_def)
  have au: "dict_get data ''audio'' PNone = Inr a" by (simp add: dict(2) a_def)
  have tx: "dict_get data ''text'' (PStr []) = Inr u" by (simp add: dict(2) u_def)
  show ?thesis
  proof (cases "ty = PStr ''audio''")
    case True
    with t have t': "dict_get data ''type'' PNone = Inr (PStr ''audio'')" by simp
    show ?thesis
    proof (cases "truthy a")
      case False
      with t' au show ?thesis using handle_message_no_audio that(2) by blast
    next
      case True
      note h = handle_message_audio [OF t' au True, of E ws st]
      show ?thesis
      proof (cases "process_audio E ws a st")
        case (Pair r st')
        show ?thesis
        proof (cases r)
          case None
          with Pair h have "handle_message E ws data st = (None, st')" by simp
          with Pair None show ?thesis using that(3) by blast
        next
          case (Some e)
          with Pair h have "handle_message E ws data st =
              send_json E ws (error_message (''Error processing audio: '' @ str_exn e)) st'"
            by simp
          with Pair Some show ?thesis using that(4) by blast
        qed
      qed
    qed
  next
    case False
    show ?thesis
    proof (cases "ty = PStr ''text''")
      case True
      from handle_message_text [OF t False True tx] show ?thesis using that(5) by blast
    next
      case no: False
      from handle_message_other [OF t False no] show ?thesis using that(6) by blast
    qed
  qed
qed

lemma process_audio_frame_eq:
  assumes "process_audio E ws a st = (r, st')"
  shows "active_connections st' = active_connections st" and "closed st' = closed st"
  using process_audio_frame [of E ws a st] assms by simp_all

lemma handle_message_frame:
  "active_connections (snd (handle_message E ws data st)) = active_connections st"
  "closed (snd (handle_message E ws data st)) = closed st"
  by (cases rule: handle_message_cases [of E ws data st];
      simp add: send_json_frame respond_frame process_audio_frame_eq)+

lemma handle_message_raised:
  assumes "fst (handle_message E ws data st) = Some e"
  shows "sent (snd (handle_message E ws data st)) = sent st"
    and "e = Exception (no_attribute_get data) \<or> (\<exists>k. send_raises E k = Some e)"
proof -
  have "sent (snd (handle_message E ws data st)) = sent st \<and>
        (e = Exception (no_attribute_get data) \<or> (\<exists>k. send_raises E k = Some e))"
  proof (cases rule: handle_message_cases [of E ws data st])
    case no_dict
    with assms show ?thesis by simp
  next
    case no_audio
    with assms send_json_raised [of E ws "error_message ''No audio data received''" st e]
    show ?thesis by auto
  next
    case (audio_done a st')
    with assms show ?thesis by simp
  next
    case (audio_failed a e' st')
    from audio_failed(1) have "fst (process_audio E ws a st) = Some e'"
      and st': "snd (process_audio E ws a st) = st'" by simp_all
    then have "sent st' = sent st" using process_audio_raised by metis
    with assms audio_failed(2)
      send_json_raised [of E ws "error_message (''Error processing audio: '' @ str_exn e')" st' e]
    show ?thesis by auto
  next
    case (text_message user_text)
    with assms respond_raised [of E ws "''text_response''" user_text st e]
    show ?thesis by auto
  next
    case ignored
    with assms show ?thesis by simp
  qed
  then show "sent (snd (handle_message E ws data st)) = sent st"
    and "e = Exception (no_attribute_get data) \<or> (\<exists>k. send_raises E k = Some e)"
    by simp_all
qed

lemma serve_active_connections:
  assumes "\<forall>m. Disconnected m \<notin> set frames"
    and "\<forall>k m. send_raises E k \<noteq> Some (WebSocketDisconnect m)"
  shows "active_connections (snd (serve E ws frames st)) = active_connections st"
  using assms(1)
proof (induction frames arbitrary: st)
  case Nil
  show ?case by simp
next
  case (Cons f frames)
  from Cons.prems have rest: "\<forall>m. Disconnected m \<notin> set frames" by simp
  show ?case
  proof (cases f)
    case (Disconnected m)
    from Cons.prems have "Disconnected m \<notin> set (f # frames)" by blast
    with Disconnected show ?thesis by simp
  next
    case (Malformed m)
    then show ?thesis by simp
  next
    case (Parsed data)
    show ?thesis
    proof (cases "handle_message E ws data st")
      case (Pair r st')
      then have same: "active_connections st' = active_connections st"
        using handle_message_frame(1) [of E ws data st] by simp
      show ?thesis
      proof (cases r)
        case None
        with Pair Parsed have "serve E ws (f # frames) st = serve E ws frames st'" by simp
        with Cons.IH [OF rest, of st'] same show ?thesis by simp
      next
        case (Some e)
        with Pair have "fst (handle_message E ws data st) = Some e" by simp
        from handle_message_raised(2) [OF this] assms(2)
        obtain m where "e = Exception m" by (cases e) auto
        with Pair Parsed Some same show ?thesis by simp
      qed
    qed
  qed
qed

subsection \<open>The claims on the WebSocket endpoint\<close>

text \<open>
  Claim C7. For every message that is a JSON object of type \<open>"audio"\<close> whose
  \<open>audio\<close> field is missing or empty (or any other value Python takes for false), the
  only thing the server does is to call \<open>send_json\<close> on that channel with exactly
  \<open>{"type": "error", "text": "No audio data received"}\<close>: the transcription service is
  not called, and when the send goes through nothing but the list of sent messages (and
  the count of sends) has changed.
\<close>

theorem audio_message_without_audio:
  assumes "data = PDict kvs"
    and "map_of kvs ''type'' = Some (PStr ''audio'')"
    and "\<not> truthy (case map_of kvs ''audio'' of None \<Rightarrow> PNone | Some v \<Rightarrow> v)"
  shows "handle_message E ws data st =
           send_json E ws
             (PDict [(''type'', PStr ''error''), (''text'', PStr ''No audio data received'')]) st \<and>
         transcribe_calls (snd (handle_message E ws data st)) = transcribe_calls st \<and>
         (send_raises E (send_attempts st) = None \<longrightarrow>
            handle_message E ws data st =
              (None, st\<lparr>send_attempts := Suc (send_attempts st),
                         sent := sent st @
                           [(ws, PDict [(''type'', PStr ''error''),
                                        (''text'', PStr ''No audio data received'')])]\<rparr>))"
proof -
  have t: "dict_get data ''type'' PNone = Inr (PStr ''audio'')"
    using assms(1,2) by simp
  have a: "dict_get data ''audio'' PNone =
           Inr (case map_of kvs ''audio'' of None \<Rightarrow> PNone | Some v \<Rightarrow> v)"
    using assms(1) by simp
  have h: "handle_message E ws data st =
           send_json E ws
             (PDict [(''type'', PStr ''error''), (''text'', PStr ''No audio data received'')]) st"
    using handle_message_no_audio [OF t a assms(3), of E ws st] by (simp add: error_message_def)
  show ?thesis unfolding h by (simp add: send_json_frame) (simp add: send_json_def)
qed

theorem audio_message_without_audio_witness:
  "handle_message example_env 7 (PDict [(''type'', PStr ''audio'')]) (connect 7 fresh_server) =
     (None, (connect 7 fresh_server)\<lparr>send_attempts := 1,
        sent := [(7, PDict [(''type'', PStr ''error''),
                            (''text'', PStr ''No audio data received'')])]\<rparr>) \<and>
   handle_message example_env 7 (PDict [(''type'', PStr ''audio''), (''audio'', PStr [])])
       (connect 7 fresh_server) =
     (None, (connect 7 fresh_server)\<lparr>send_attempts := 1,
        sent := [(7, PDict [(''type'', PStr ''error''),
                            (''text'', PStr ''No audio data received'')])]\<rparr>) \<and>
   transcribe_calls (snd (handle_message example_env 7 (PDict [(''type'', PStr ''audio'')])
       (connect 7 fresh_server))) = 0"
proof -
  have s: "send_raises example_env (send_attempts (connect 7 fresh_server)) = None"
    by (simp add: example_env_def)
  have missing: "map_of [(''type'', PStr ''audio'')] ''type'' = Some (PStr ''audio'')"
    "\<not> truthy (case map_of [(''type'', PStr ''audio'')] ''audio'' of
                 None \<Rightarrow> PNone | Some v \<Rightarrow> v)"
    by simp_all
  have empty: "map_of [(''type'', PStr ''audio''), (''audio'', PStr [])] ''type'' =
               Some (PStr ''audio'')"
    "\<not> truthy (case map_of [(''type'', PStr ''audio''), (''audio'', PStr [])] ''audio'' of
                 None \<Rightarrow> PNone | Some v \<Rightarrow> v)"
    by simp_all
  have 1: "handle_message example_env 7 (PDict [(''type'', PStr ''audio'')]) (connect 7 fresh_server) =
     (None, (connect 7 fresh_server)\<lparr>send_attempts := 1,
        sent := [(7, PDict [(''type'', PStr ''error''),
                            (''text'', PStr ''No audio data received'')])]\<rparr>)"
    using audio_message_without_audio [OF refl missing, of example_env 7 "connect 7 fresh_server",
        THEN conjunct2, THEN conjunct2, THEN mp, OF s]
    by (simp add: connect_def fresh_server_def)
  have 2: "handle_message example_env 7 (PDict [(''type'', PStr ''audio''), (''audio'', PStr [])])
       (connect 7 fresh_server) =
     (None, (connect 7 fresh_server)\<lparr>send_attempts := 1,
        sent := [(7, PDict [(''type'', PStr ''error''),
                            (''text'', PStr ''No audio data received'')])]\<rparr>)"
    using audio_message_without_audio [OF refl empty, of example_env 7 "connect 7 fresh_server",
        THEN conjunct2, THEN conjunct2, THEN mp, OF s]
    by (simp add: connect_def fresh_server_def)
  have 3: "transcribe_calls (snd (handle_message example_env 7 (PDict [(''type'', PStr ''audio'')])
       (connect 7 fresh_server))) = 0"
    unfolding 1 by (simp add: connect_def fresh_server_def)
  from 1 2 3 show ?thesis by (intro conjI)
qed

text \<open>
  Claim C2, as the code has it. Only the inner \<open>try\<close> of the audio branch converts
  exceptions.
  \<^item> An exception raised while an audio message with non-empty audio is processed
    (decoding, transcription, sending the reply) is caught; if the error message can be
    sent, it is \<open>{"type": "error", "text": "Error processing audio: " + str(e)}\<close> on the
    same channel, the only message sent for this frame; the channel stays open and in
    the connection set, and the loop goes on with the next frame.
  \<^item> An exception raised anywhere else in the loop is not converted. When receiving or
    parsing fails, or the body of the loop raises an exception other than the disconnect
    signal (\<open>data.get\<close> on a payload that is no object, a send outside the inner
    \<open>try\<close>), no message is sent for this frame, \<open>close()\<close> is called on the channel and
    the endpoint returns; the channel stays in the connection set.
  \<^item> The disconnect signal, raised by \<open>receive_text\<close> or by a send, removes the channel
    from the set, and nothing else does: over any frames without a disconnect, with sends
    that never raise the signal, the set is unchanged.
\<close>

theorem websocket_exception_policy:
  "(dict_get data ''type'' PNone = Inr (PStr ''audio'') \<and>
    dict_get data ''audio'' PNone = Inr a \<and> truthy a \<and>
    process_audio E ws a st = (Some e, st1) \<and> send_raises E (send_attempts st1) = None
    \<longrightarrow> handle_message E ws data st =
            (None, st1\<lparr>send_attempts := Suc (send_attempts st1),
                        sent := sent st @
                          [(ws, PDict [(''type'', PStr ''error''),
                                       (''text'', PStr (''Error processing audio: '' @ str_exn e))])]\<rparr>) \<and>
          active_connections st1 = active_connections st \<and> closed st1 = closed st \<and>
          serve E ws (Parsed data # frames) st =
            serve E ws frames
              (st1\<lparr>send_attempts := Suc (send_attempts st1),
                   sent := sent st @
                     [(ws, PDict [(''type'', PStr ''error''),
                                  (''text'', PStr (''Error processing audio: '' @ str_exn e))])]\<rparr>)) \<and>
   serve E ws (Malformed m # frames) st = (True, st\<lparr>closed := closed st @ [ws]\<rparr>) \<and>
   (handle_message E ws data st = (Some (Exception m), st2)
    \<longrightarrow> sent st2 = sent st \<and> active_connections st2 = active_connections st \<and>
          serve E ws (Parsed data # frames) st = (True, st2\<lparr>closed := closed st2 @ [ws]\<rparr>)) \<and>
   (handle_message E ws data st = (Some (WebSocketDisconnect m), st2)
    \<longrightarrow> serve E ws (Parsed data # frames) st =
            (True, st2\<lparr>active_connections := remove1 ws (active_connections st2)\<rparr>)) \<and>
   serve E ws (Disconnected m # frames) st =
     (True, st\<lparr>active_connections := remove1 ws (active_connections st)\<rparr>) \<and>
   ((\<forall>m. Disconnected m \<notin> set frames) \<and>
    (\<forall>k m. send_raises E k \<noteq> Some (WebSocketDisconnect m))
    \<longrightarrow> active_connections (snd (serve E ws frames st)) = active_connections st)"
proof (intro conjI impI)
  assume h: "dict_get data ''type'' PNone = Inr (PStr ''audio'') \<and>
    dict_get data ''audio'' PNone = Inr a \<and> truthy a \<and>
    process_audio E ws a st = (Some e, st1) \<and> send_raises E (send_attempts st1) = None"
  then have pa: "process_audio E ws a st = (Some e, st1)"
    and ok: "send_raises E (send_attempts st1) = None" by simp_all
  from pa have "fst (process_audio E ws a st) = Some e" and "snd (process_audio E ws a st) = st1"
    by simp_all
  then have same: "sent st1 = sent st" using process_audio_raised by metis
  from h have "handle_message E ws data st =
      send_json E ws (error_message (''Error processing audio: '' @ str_exn e)) st1"
    by (simp add: handle_message_audio)
  then show hm: "handle_message E ws data st =
            (None, st1\<lparr>send_attempts := Suc (send_attempts st1),
                        sent := sent st @
                          [(ws, PDict [(''type'', PStr ''error''),
                                       (''text'', PStr (''Error processing audio: '' @ str_exn e))])]\<rparr>)"
    using ok same by (simp add: send_json_def error_message_def)
  from pa show "active_connections st1 = active_connections st"
    by (rule process_audio_frame_eq)
  from pa show "closed st1 = closed st"
    by (rule process_audio_frame_eq)
  from hm show "serve E ws (Parsed data # frames) st =
            serve E ws frames
              (st1\<lparr>send_attempts := Suc (send_attempts st1),
                   sent := sent st @
                     [(ws, PDict [(''type'', PStr ''error''),
                                  (''text'', PStr (''Error processing audio: '' @ str_exn e))])]\<rparr>)"
    by simp
next
  show "serve E ws (Malformed m # frames) st = (True, st\<lparr>closed := closed st @ [ws]\<rparr>)"
    by simp
next
  assume h: "handle_message E ws data st = (Some (Exception m), st2)"
  then have f: "fst (handle_message E ws data st) = Some (Exception m)"
    and s: "snd (handle_message E ws data st) = st2" by simp_all
  from handle_message_raised(1) [OF f] s show "sent st2 = sent st" by simp
  from handle_message_frame(1) [of E ws data st] s
  show "active_connections st2 = active_connections st" by simp
  from h show "serve E ws (Parsed data # frames) st = (True, st2\<lparr>closed := closed st2 @ [ws]\<rparr>)"
    by simp
next
  assume "handle_message E ws data st = (Some (WebSocketDisconnect m), st2)"
  then show "serve E ws (Parsed data # frames) st =
            (True, st2\<lparr>active_connections := remove1 ws (active_connections st2)\<rparr>)"
    by (simp add: disconnect_def)
next
  show "serve E ws (Disconnected m # frames) st =
     (True, st\<lparr>active_connections := remove1 ws (active_connections st)\<rparr>)"
    by (simp add: disconnect_def)
next
  assume "(\<forall>m. Disconnected m \<notin> set frames) \<and>
    (\<forall>k m. send_raises E k \<noteq> Some (WebSocketDisconnect m))"
  then show "active_connections (snd (serve E ws frames st)) = active_connections st"
    using serve_active_connections by blast
qed

lemma process_audio_example:
  "process_audio example_env 7 (PStr ''!!!'') (connect 7 fresh_server) =
     (Some (Exception ''Incorrect padding''),
      \<lparr>active_connections = [7], closed = [], sent = [], send_attempts = 0,
       transcribe_calls = 0, chat_calls = 0,
       fs = \<lparr>files = [0 \<mapsto> []], next_tmp = 1\<rparr>\<rparr>)"
  by (simp add: process_audio_def example_env_def connect_def fresh_server_def no_files_def
      write_file_def Let_def)

theorem websocket_exception_policy_witness:
  "handle_message example_env 7 (PDict [(''type'', PStr ''audio''), (''audio'', PStr ''!!!'')])
     (connect 7 fresh_server) =
   (None,
    \<lparr>active_connections = [7], closed = [],
     sent = [(7, PDict [(''type'', PStr ''error''),
                        (''text'', PStr ''Error processing audio: Incorrect padding'')])],
     send_attempts = 1, transcribe_calls = 0, chat_calls = 0,
     fs = \<lparr>files = [0 \<mapsto> []], next_tmp = 1\<rparr>\<rparr>) \<and>
   active_connections (snd (serve example_env 7
     [Parsed (PDict [(''type'', PStr ''audio''), (''audio'', PStr ''!!!'')]), Malformed ''no JSON'']
     (connect 7 fresh_server))) = [7] \<and>
   serve broken_pipe_env 7 [Parsed (PList [])] (connect 7 fresh_server) =
     (True, (connect 7 fresh_server)\<lparr>closed := [7]\<rparr>) \<and>
   serve (example_env\<lparr>send_raises := \<lambda>k. Some (WebSocketDisconnect ''1001'')\<rparr>) 7
     [Parsed (PDict [(''type'', PStr ''audio'')])] (connect 7 fresh_server) =
     (True, fresh_server\<lparr>send_attempts := 1\<rparr>)"
proof -
  let ?D = "PDict [(''type'', PStr ''audio''), (''audio'', PStr ''!!!'')]"
  let ?st1 = "\<lparr>active_connections = [7], closed = [], sent = [], send_attempts = 0,
       transcribe_calls = 0, chat_calls = 0,
       fs = \<lparr>files = [0 \<mapsto> []], next_tmp = 1\<rparr>\<rparr>"
  have hyp: "dict_get ?D ''type'' PNone = Inr (PStr ''audio'') \<and>
    dict_get ?D ''audio'' PNone = Inr (PStr ''!!!'') \<and> truthy (PStr ''!!!'') \<and>
    process_audio example_env 7 (PStr ''!!!'') (connect 7 fresh_server) =
      (Some (Exception ''Incorrect padding''), ?st1) \<and>
    send_raises example_env (send_attempts ?st1) = None"
    by (simp add: process_audio_example) (simp add: example_env_def)
  have quiet: "(\<forall>m. Disconnected m \<notin>
        set [Parsed ?D, Malformed ''no JSON'']) \<and>
    (\<forall>k m. send_raises example_env k \<noteq> Some (WebSocketDisconnect m))"
    by (simp add: example_env_def)
  note policy = websocket_exception_policy [of ?D "PStr ''!!!''" example_env 7
      "connect 7 fresh_server" "Exception ''Incorrect padding''" ?st1
      "[Parsed ?D, Malformed ''no JSON'']"]
  from policy [THEN conjunct1, THEN mp, OF hyp, THEN conjunct1]
  have 1: "handle_message example_env 7 ?D (connect 7 fresh_server) =
     (None,
      \<lparr>active_connections = [7], closed = [],
       sent = [(7, PDict [(''type'', PStr ''error''),
                          (''text'', PStr ''Error processing audio: Incorrect padding'')])],
       send_attempts = 1, transcribe_calls = 0, chat_calls = 0,
       fs = \<lparr>files = [0 \<mapsto> []], next_tmp = 1\<rparr>\<rparr>)"
    by (simp add: connect_def fresh_server_def)
  from policy [THEN conjunct2, THEN conjunct2, THEN conjunct2, THEN conjunct2, THEN conjunct2,
      THEN mp, OF quiet]
  have 2: "active_connections (snd (serve example_env 7 [Parsed ?D, Malformed ''no JSON'']
      (connect 7 fresh_server))) = [7]"
    by (simp add: connect_def fresh_server_def)
  have no_object: "handle_message broken_pipe_env 7 (PList []) (connect 7 fresh_server) =
      (Some (Exception (no_attribute_get (PList []))), connect 7 fresh_server)"
    by (simp add: handle_message_def)
  from websocket_exception_policy [of "PList []" _ broken_pipe_env 7 "connect 7 fresh_server"
      _ _ "[]" "no_attribute_get (PList [])" "connect 7 fresh_server",
      THEN conjunct2, THEN conjunct2, THEN conjunct1, THEN mp, OF no_object, THEN conjunct2,
      THEN conjunct2]
  have 3: "serve broken_pipe_env 7 [Parsed (PList [])] (connect 7 fresh_server) =
     (True, (connect 7 fresh_server)\<lparr>closed := [7]\<rparr>)"
    by (simp add: connect_def fresh_server_def)
  let ?G = "example_env\<lparr>send_raises := \<lambda>k. Some (WebSocketDisconnect ''1001'')\<rparr>"
  have gone: "handle_message ?G 7 (PDict [(''type'', PStr ''audio'')]) (connect 7 fresh_server) =
      (Some (WebSocketDisconnect ''1001''), (connect 7 fresh_server)\<lparr>send_attempts := 1\<rparr>)"
    by (simp add: handle_message_def send_json_def connect_def fresh_server_def)
  from websocket_exception_policy [of "PDict [(''type'', PStr ''audio'')]" _ ?G 7
      "connect 7 fresh_server" _ _ "[]" "''1001''"
      "(connect 7 fresh_server)\<lparr>send_attempts := 1\<rparr>",
      THEN conjunct2, THEN conjunct2, THEN conjunct2, THEN conjunct1, THEN mp, OF gone]
  have 4: "serve ?G 7 [Parsed (PDict [(''type'', PStr ''audio'')])] (connect 7 fresh_server) =
     (True, fresh_server\<lparr>send_attempts := 1\<rparr>)"
    by (simp add: connect_def fresh_server_def)
  from 1 2 3 4 show ?thesis by (intro conjI)
qed

text \<open>
  Claim C2 as stated fails for every exception raised outside the inner \<open>try\<close>. A
  frame that is no JSON document, a JSON document that is no object (here \<open>[]\<close>), and
  a text message whose reply cannot be sent: each time no error message is sent, the
  channel is closed, and it is still in the connection set.
\<close>

theorem websocket_exception_not_converted:
  "websocket_endpoint example_env 7 [Malformed ''Expecting value''] fresh_server =
     (True, fresh_server\<lparr>active_connections := [7], closed := [7]\<rparr>) \<and>
   sent (snd (websocket_endpoint example_env 7 [Malformed ''Expecting value''] fresh_server)) = [] \<and>
   websocket_endpoint example_env 7 [Parsed (PList [])] fresh_server =
     (True, fresh_server\<lparr>active_connections := [7], closed := [7]\<rparr>) \<and>
   fst (websocket_endpoint broken_pipe_env 7
     [Parsed (PDict [(''type'', PStr ''text''), (''text'', PStr ''Hello'')])] fresh_server) \<and>
   sent (snd (websocket_endpoint broken_pipe_env 7
     [Parsed (PDict [(''type'', PStr ''text''), (''text'', PStr ''Hello'')])] fresh_server)) = [] \<and>
   closed (snd (websocket_endpoint broken_pipe_env 7
     [Parsed (PDict [(''type'', PStr ''text''), (''text'', PStr ''Hello'')])] fresh_server)) = [7] \<and>
   active_connections (snd (websocket_endpoint broken_pipe_env 7
     [Parsed (PDict [(''type'', PStr ''text''), (''text'', PStr ''Hello'')])] fresh_server)) = [7]"
proof -
  have 1: "websocket_endpoint example_env 7 [Malformed ''Expecting value''] fresh_server =
     (True, fresh_server\<lparr>active_connections := [7], closed := [7]\<rparr>)"
    by (simp add: websocket_endpoint_def connect_def fresh_server_def)
  have 2: "websocket_endpoint example_env 7 [Parsed (PList [])] fresh_server =
     (True, fresh_server\<lparr>active_connections := [7], closed := [7]\<rparr>)"
    by (simp add: websocket_endpoint_def connect_def fresh_server_def handle_message_def)
  have 3: "websocket_endpoint broken_pipe_env 7
     [Parsed (PDict [(''type'', PStr ''text''), (''text'', PStr ''Hello'')])] fresh_server =
     (True, \<lparr>active_connections = [7], closed = [7], sent = [], send_attempts = 1,
       transcribe_calls = 0, chat_calls = 1,
       fs = \<lparr>files = [0 \<mapsto> ''mp3 bytes''], next_tmp = 1\<rparr>\<rparr>)"
    by (simp add: websocket_endpoint_def connect_def fresh_server_def handle_message_def
        respond_def process_text_with_openai_def text_to_speech_def send_json_def
        broken_pipe_env_def example_env_def no_files_def write_file_def Let_def)
  show ?thesis unfolding 1 2 3 by (simp add: fresh_server_def)
qed

section \<open>Temporary audio files\<close>

text \<open>
  The command-line \<open>speak_text\<close> removes the file it creates on every path: given a
  fresh name from \<open>mktemp\<close> and an \<open>os.unlink\<close> that does not raise, the files after
  the call are the files before it.
\<close>

lemma speak_text_removes_temp_file:
  assumes "\<not> file_exists fs0 (next_tmp fs0)" and "\<not> unlink_raises E (next_tmp fs0)"
  shows "files (snd (speak_text E text fs0)) = files fs0"
proof -
  have none: "files fs0 (next_tmp fs0) = None" using assms(1) by (simp add: file_exists_def)
  then have restore: "\<And>b. (files fs0)(next_tmp fs0 := Some b, next_tmp fs0 := None) = files fs0"
    by (simp add: fun_upd_idem)
  show ?thesis
    using assms(2) none restore
    by (simp add: speak_text_def Let_def file_exists_def write_file_def unlink_def
        split: synthesis.split)
qed

text \<open>
  Claim C1: every temporary audio file created during a synthesis call is absent when the
  call returns. The server's \<open>text_to_speech\<close> does not do this: it creates the file
  with \<open>delete=False\<close> and never unlinks it (lemma \<open>text_to_speech_file\<close>: on every
  path the file exists when the call returns). Evaluated on the text \<open>Hello\<close> with a
  synthesis that succeeds, and on the empty text with a synthesis that raises: both calls
  leave the file behind.
\<close>

theorem text_to_speech_leaves_temp_file:
  "text_to_speech example_env ''Hello'' no_files =
     (Some ''bXAzIGJ5dGVz'', \<lparr>files = [0 \<mapsto> ''mp3 bytes''], next_tmp = 1\<rparr>) \<and>
   file_exists (snd (text_to_speech example_env ''Hello'' no_files)) 0 \<and>
   text_to_speech (example_env\<lparr>gtts_save := \<lambda>t. Inl ''No text to speak''\<rparr>) [] no_files =
     (None, \<lparr>files = [0 \<mapsto> []], next_tmp = 1\<rparr>) \<and>
   file_exists (snd (text_to_speech (example_env\<lparr>gtts_save := \<lambda>t. Inl ''No text to speak''\<rparr>)
     [] no_files)) 0"
  by (simp add: text_to_speech_def example_env_def no_files_def write_file_def file_exists_def
      Let_def)

section \<open>Properties of the conversation loop\<close>

lemma exit_requested_nonempty: "exit_requested user_input \<Longrightarrow> user_input \<noteq> []"
  by (auto simp: exit_requested_def exit_words_def lower_def)

lemma exit_requested_goodbye: "exit_requested ''goodbye''"
  by code_simp

lemma snd_and_then: "snd (and_then acts r) = snd r"
  by (cases r) simp

lemma main_loop_exit_turn:
  assumes "\<not> flag_top t" and "raises t = NoException" and "heard t = Some user_input"
    and "exit_requested user_input"
  shows "main_loop (t # ts) consecutive_errors =
         (if flag_heard t then ([Listen], True) else ([Listen, Speak farewell], True))"
  using assms exit_requested_nonempty [OF assms(4)] by simp

lemma main_loop_cut:
  assumes "\<not> flag_top t" and "raises t = NoException" and "heard t = Some user_input"
    and "exit_requested user_input"
  shows "main_loop (pre @ t # ts) consecutive_errors = main_loop (pre @ [t]) consecutive_errors \<and>
         snd (main_loop (pre @ [t]) consecutive_errors)"
proof (induction pre arbitrary: consecutive_errors)
  case Nil
  show ?case
    unfolding append_Nil main_loop_exit_turn [OF assms] by simp
next
  case (Cons x pre)
  have eq: "\<And>n. main_loop (pre @ t # ts) n = main_loop (pre @ [t]) n"
    and fin: "\<And>n. snd (main_loop (pre @ [t]) n)"
    using Cons.IH by simp_all
  have 1: "main_loop ((x # pre) @ t # ts) consecutive_errors =
           main_loop ((x # pre) @ [t]) consecutive_errors"
    by (simp add: eq split: raised.split option.split)
  have 2: "snd (main_loop ((x # pre) @ [t]) consecutive_errors)"
    by (simp add: fin snd_and_then split: raised.split option.split)
  from 1 2 show ?case ..
qed

text \<open>
  Claim C8, as the code has it. Take an iteration of the loop that starts (the flag is not
  set at the loop condition) and in which \<open>listen_to_speech\<close> returns a text that
  contains an exit word. The loop ends in this iteration, whatever would come after it:
  nothing is listened to again. The farewell is spoken first if the shutdown flag is not
  set when it is read after listening; if it is set the loop ends at once, without a
  farewell.
\<close>

theorem exit_phrase_ends_loop:
  assumes "\<not> flag_top t" and "raises t = NoException" and "heard t = Some user_input"
    and "exit_requested user_input"
  shows "main_loop (t # ts) consecutive_errors =
           (if flag_heard t then ([Listen], True)
            else ([Listen, Speak ''Goodbye! Have a great day!''], True)) \<and>
         main_loop (pre @ t # ts) consecutive_errors = main_loop (pre @ [t]) consecutive_errors \<and>
         snd (main_loop (pre @ [t]) consecutive_errors)"
  using main_loop_exit_turn [OF assms, of ts consecutive_errors]
    main_loop_cut [OF assms, of pre ts consecutive_errors]
  by (simp add: farewell_def)

theorem exit_phrase_ends_loop_witness:
  "exit_requested ''goodbye'' \<and>
   main_loop
     [\<lparr>flag_top = False, raises = NoException, heard = Some ''goodbye'', flag_heard = False,
       reply = [], flag_replied = False\<rparr>,
      \<lparr>flag_top = False, raises = NoException, heard = Some ''hello'', flag_heard = False,
       reply = ''Hi!'', flag_replied = False\<rparr>] 0 =
   ([Listen, Speak ''Goodbye! Have a great day!''], True)"
proof -
  let ?t = "\<lparr>flag_top = False, raises = NoException, heard = Some ''goodbye'', flag_heard = False,
       reply = [], flag_replied = False\<rparr>"
  have a: "\<not> flag_top ?t" and b: "raises ?t = NoException" and c: "heard ?t = Some ''goodbye''"
    by simp_all
  from exit_phrase_ends_loop [OF a b c exit_requested_goodbye, THEN conjunct1]
  have "main_loop
     [?t, \<lparr>flag_top = False, raises = NoException, heard = Some ''hello'', flag_heard = False,
       reply = ''Hi!'', flag_replied = False\<rparr>] 0 =
   ([Listen, Speak ''Goodbye! Have a great day!''], True)"
    by simp
  with exit_requested_goodbye show ?thesis by (rule conjI)
qed

text \<open>
  Claim C8 as stated fails when a shutdown signal arrives while the loop is listening: the
  text \<open>goodbye\<close> is recognized, the flag is read first, and the loop ends without a
  farewell.
\<close>

theorem exit_phrase_without_farewell:
  "exit_requested ''goodbye'' \<and>
   main_loop
     [\<lparr>flag_top = False, raises = NoException, heard = Some ''goodbye'', flag_heard = True,
       reply = [], flag_replied = False\<rparr>] 0 = ([Listen], True)"
proof -
  have "main_loop
     [\<lparr>flag_top = False, raises = NoException, heard = Some ''goodbye'', flag_heard = True,
       reply = [], flag_replied = False\<rparr>] 0 = ([Listen], True)"
    by simp
  with exit_requested_goodbye show ?thesis by (rule conjI)
qed

end
